theory Spec2Isabelle
  imports Main "HOL-Library.Sublist"
begin

section \<open>Strings and characters\<close>

text \<open>
  Source strings are modelled as \<open>string\<close> (lists of 8-bit characters). The character
  classes are the ones the regular expressions of the source spell out
  (\<open>[a-zA-Z]\<close>, \<open>\d\<close>, \<open>[a-zA-Z0-9-]\<close>); \<open>toUpperCase\<close> and \<open>toLowerCase\<close> are the
  case mappings on the ASCII letters and leave every other character alone.
\<close>

definition lower_letters :: string where
  "lower_letters = ''abcdefghijklmnopqrstuvwxyz''"

definition upper_letters :: string where
  "upper_letters = ''ABCDEFGHIJKLMNOPQRSTUVWXYZ''"

definition is_lower :: "char \<Rightarrow> bool" where
  "is_lower c = (c \<in> set lower_letters)"

definition is_upper :: "char \<Rightarrow> bool" where
  "is_upper c = (c \<in> set upper_letters)"

definition is_alpha :: "char \<Rightarrow> bool" where
  "is_alpha c = (is_lower c \<or> is_upper c)"

definition is_digit :: "char \<Rightarrow> bool" where
  "is_digit c = (c \<in> set ''0123456789'')"

definition upper_char :: "char \<Rightarrow> char" where
  "upper_char c = (case map_of (zip lower_letters upper_letters) c of Some u \<Rightarrow> u | None \<Rightarrow> c)"

definition lower_char :: "char \<Rightarrow> char" where
  "lower_char c = (case map_of (zip upper_letters lower_letters) c of Some l \<Rightarrow> l | None \<Rightarrow> c)"

definition toUpperCase :: "string \<Rightarrow> string" where
  "toUpperCase s = map upper_char s"

definition toLowerCase :: "string \<Rightarrow> string" where
  "toLowerCase s = map lower_char s"

section \<open>Issue identifiers in branch names (workflows/linear)\<close>

text \<open>
  \<^verbatim>\<open>const linear_pattern = /\/([a-zA-Z]+-\d+)-/; const match = branch.match(linear_pattern);\<close>

  \<open>match_issue_at s\<close> matches \<^verbatim>\<open>([a-zA-Z]+-\d+)-\<close> at the head of \<open>s\<close> (the text right
  after a slash) and returns the captured group. Both \<open>+\<close> are greedy; a shorter run of
  letters would have to be followed by a dash where a letter stands, and likewise for the
  digits, so the greedy attempt is the only one that can succeed.
  \<open>linear_pattern_match\<close> is the search of \<open>String.prototype.match\<close>: the leftmost start
  at which the pattern matches.
\<close>

definition match_issue_at :: "string \<Rightarrow> string option" where
  "match_issue_at s =
     (let letters = takeWhile is_alpha s; r1 = dropWhile is_alpha s in
      if letters = [] then None
      else (case r1 of
        [] \<Rightarrow> None
      | c # r2 \<Rightarrow>
          (if c \<noteq> CHR ''-'' then None
           else (let digits = takeWhile is_digit r2; r3 = dropWhile is_digit r2 in
            if digits = [] then None
            else (case r3 of
              [] \<Rightarrow> None
            | d # _ \<Rightarrow> (if d = CHR ''-'' then Some (letters @ ''-'' @ digits) else None))))))"

fun linear_pattern_match :: "string \<Rightarrow> string option" where
  "linear_pattern_match [] = None"
| "linear_pattern_match (c # s) =
     (if c = CHR ''/'' then
        (case match_issue_at s of
           Some issue_part \<Rightarrow> Some issue_part
         | None \<Rightarrow> linear_pattern_match s)
      else linear_pattern_match s)"

definition detectLinearIssue :: "string \<Rightarrow> string option" where
  "detectLinearIssue branch =
     (case linear_pattern_match branch of
        Some issue_part \<Rightarrow> Some (toUpperCase issue_part)
      | None \<Rightarrow> None)"

definition hasLinearPattern :: "string \<Rightarrow> bool" where
  "hasLinearPattern branch = (detectLinearIssue branch \<noteq> None)"

text \<open>
  The shape the pattern describes: \<open>branch\<close> splits into a prefix, a slash, a non-empty
  run of letters, a dash, a non-empty run of digits, a dash, and a rest.
\<close>

definition issue_occurrence :: "string \<Rightarrow> string \<Rightarrow> string \<Rightarrow> string \<Rightarrow> string \<Rightarrow> bool" where
  "issue_occurrence branch pre letters digits rest =
     (branch = pre @ ''/'' @ letters @ ''-'' @ digits @ ''-'' @ rest \<and>
      letters \<noteq> [] \<and> list_all is_alpha letters \<and>
      digits \<noteq> [] \<and> list_all is_digit digits)"


section \<open>Cleaning pull-request titles (workflows/linear)\<close>









section \<open>Issue-derived branch names (workflows/linear)\<close>

text \<open>
  \<^verbatim>\<open>const username_match = current_branch.match(/^([^/]+)\//);
const username = username_match ? username_match[1] : "feature";
const description_part = current_branch.split("/").pop() || "work";
const clean_description = description_part
     .replace(/[^a-zA-Z0-9-]/g, "-")
     .replace(/-+/g, "-")
     .replace(/^-|-$/g, "");
const linear_part = issue_identifier.toLowerCase();
return `${username}/${linear_part}-${clean_description}`;\<close>
\<close>

definition username_match :: "string \<Rightarrow> string option" where
  "username_match current_branch =
     (let name = takeWhile (\<lambda>c. c \<noteq> CHR ''/'') current_branch;
          r = dropWhile (\<lambda>c. c \<noteq> CHR ''/'') current_branch in
      if name = [] \<or> r = [] then None else Some name)"

text \<open>\<open>split_str sep s\<close> is \<open>s.split(sep)\<close> for a one-character separator: never empty.\<close>

fun split_str :: "char \<Rightarrow> string \<Rightarrow> string list" where
  "split_str sep [] = [[]]"
| "split_str sep (c # s) =
     (if c = sep then [] # split_str sep s
      else (case split_str sep s of
              [] \<Rightarrow> [[c]]
            | x # xs \<Rightarrow> (c # x) # xs))"

text \<open>\<open>pop\<close> gives the last element, or \<open>undefined\<close> (\<open>None\<close>) on an empty array.\<close>

definition pop :: "'a list \<Rightarrow> 'a option" where
  "pop xs = (case rev xs of [] \<Rightarrow> None | x # _ \<Rightarrow> Some x)"

definition keep_or_dash :: "char \<Rightarrow> char" where
  "keep_or_dash c = (if is_alpha c \<or> is_digit c \<or> c = CHR ''-'' then c else CHR ''-'')"

text \<open>\<^verbatim>\<open>.replace(/-+/g, "-")\<close>: every maximal run of dashes becomes one dash.\<close>

function collapse_dashes :: "string \<Rightarrow> string" where
  "collapse_dashes [] = []"
| "collapse_dashes (c # s) =
     (if c = CHR ''-'' then CHR ''-'' # collapse_dashes (dropWhile (\<lambda>x. x = CHR ''-'') s)
      else c # collapse_dashes s)"
  by pat_completeness auto
termination
  by (relation "measure length") (auto simp: less_Suc_eq_le length_dropWhile_le)

text \<open>
  \<^verbatim>\<open>.replace(/^-|-$/g, "")\<close>: a dash at position 0 is removed, and, scanning on from
  there, a dash at the last position is removed.
\<close>

definition strip_edge_dashes :: "string \<Rightarrow> string" where
  "strip_edge_dashes s =
     (let s1 = (case s of [] \<Rightarrow> [] | c # r \<Rightarrow> (if c = CHR ''-'' then r else s)) in
      if s1 \<noteq> [] \<and> last s1 = CHR ''-'' then butlast s1 else s1)"

definition clean_description :: "string \<Rightarrow> string" where
  "clean_description description_part =
     strip_edge_dashes (collapse_dashes (map keep_or_dash description_part))"

definition generateLinearBranchName :: "string \<Rightarrow> string \<Rightarrow> string" where
  "generateLinearBranchName issue_identifier current_branch =
     (let username = (case username_match current_branch of Some u \<Rightarrow> u | None \<Rightarrow> ''feature'');
          description_part =
            (case pop (split_str CHR ''/'' current_branch) of
               None \<Rightarrow> ''work''
             | Some d \<Rightarrow> (if d = [] then ''work'' else d));
          linear_part = toLowerCase issue_identifier
      in username @ ''/'' @ linear_part @ ''-'' @ clean_description description_part)"

text \<open>
  The description of the specification, word for word: the author is the text before the
  first slash, or \<open>feature\<close> when the branch has no slash; the description is the text
  after the last slash, every run of non-alphanumeric characters collapsed to one hyphen,
  leading and trailing hyphens removed.
\<close>

definition is_alnum :: "char \<Rightarrow> bool" where
  "is_alnum c = (is_alpha c \<or> is_digit c)"

definition spec_author :: "string \<Rightarrow> string" where
  "spec_author branch =
     (if CHR ''/'' \<in> set branch then takeWhile (\<lambda>c. c \<noteq> CHR ''/'') branch else ''feature'')"

definition text_after_last_slash :: "string \<Rightarrow> string" where
  "text_after_last_slash branch = rev (takeWhile (\<lambda>c. c \<noteq> CHR ''/'') (rev branch))"

function collapse_runs :: "string \<Rightarrow> string" where
  "collapse_runs [] = []"
| "collapse_runs (c # s) =
     (if is_alnum c then c # collapse_runs s
      else CHR ''-'' # collapse_runs (dropWhile (\<lambda>x. \<not> is_alnum x) s))"
  by pat_completeness auto
termination
  by (relation "measure length") (auto simp: less_Suc_eq_le length_dropWhile_le)

definition trim_hyphens :: "string \<Rightarrow> string" where
  "trim_hyphens s =
     rev (dropWhile (\<lambda>c. c = CHR ''-'') (rev (dropWhile (\<lambda>c. c = CHR ''-'') s)))"

definition spec_description :: "string \<Rightarrow> string" where
  "spec_description branch = trim_hyphens (collapse_runs (text_after_last_slash branch))"

definition spec_branch_name :: "string \<Rightarrow> string \<Rightarrow> string" where
  "spec_branch_name issue_identifier branch =
     spec_author branch @ ''/'' @ toLowerCase issue_identifier @ ''-'' @ spec_description branch"

text \<open>A string in which no two dashes stand side by side.\<close>

fun no_double_dash :: "string \<Rightarrow> bool" where
  "no_double_dash (a # b # s) = (\<not> (a = CHR ''-'' \<and> b = CHR ''-'') \<and> no_double_dash (b # s))"
| "no_double_dash s = True"

section \<open>Release increments (workflows/release-workflow)\<close>

text \<open>
  \<^verbatim>\<open>const getNextReleaseIncrement = (date: string): number => {
  try {
    const branches = execSync("git branch -r", { encoding: "utf-8" }).split("\n");
    const release_branches = branches.filter((b) => b.includes(`release/${date}.`));
    if (release_branches.length === 0) return 1;
    const increments = release_branches.map((b) => {
      const match = b.match(/release\/\d+\.(\d+)/);
      return match ? parseInt(match[1]) : 0;
    });
    return Math.max(...increments) + 1;
  } catch { return 1; }
};\<close>

  The result of \<open>execSync\<close> is an argument: \<open>Inl\<close> when the command throws, \<open>Inr\<close> with
  its standard output otherwise. Numbers are modelled as \<open>nat\<close>; the source computes
  with doubles, which agree with \<open>nat\<close> below \<open>2 ^ 53\<close>.
\<close>

fun includes_str :: "string \<Rightarrow> string \<Rightarrow> bool" where
  "includes_str [] pat = (pat = [])"
| "includes_str (c # s) pat = (prefix pat (c # s) \<or> includes_str s pat)"














section \<open>Configuration (config/config, config/config-manager, config/config-validation)\<close>

subsection \<open>Values, files and the environment\<close>

datatype json =
    JNull
  | JBool bool
  | JNum int
  | JStr string
  | JArr "json list"
  | JObj "(string \<times> json) list"

text \<open>
  A file is modelled by what \<open>Bun.file(path).text()\<close> followed by \<open>JSON.parse\<close> makes of
  it: \<open>Malformed\<close> when reading or parsing throws, \<open>Json j\<close> when it yields the value
  \<open>j\<close>. Writing \<open>JSON.stringify(config, null, 2) + "\n"\<close> stores the file that parses to
  the object written. The keys of a parsed object are distinct; the order of keys plays
  no role in the source and is fixed here.
\<close>

datatype file_text = Malformed | Json json

datatype ConfigKey = googleAiKey | githubToken | linearApiKey | linearEnabled

text \<open>
  \<open>Config\<close> is a JavaScript object over the four keys; a key is absent (\<open>None\<close>) or holds
  a string or a boolean. The casts of the source (\<^verbatim>\<open>value as any\<close>, \<^verbatim>\<open>{} as Config\<close>)
  let any of the two kinds sit under any key.
\<close>

datatype cfg_value = VStr string | VBool bool

type_synonym Config = "ConfigKey \<Rightarrow> cfg_value option"

record world =
  cwd :: string
  homedir :: string
  fs :: "string \<Rightarrow> file_text option"
  env :: "string \<Rightarrow> string option"
  write_fails :: bool

definition getGlobalConfigPath :: "world \<Rightarrow> string" where
  "getGlobalConfigPath w = homedir w @ ''/.div-flow/config.json''"

definition getLocalConfigPath :: "world \<Rightarrow> string" where
  "getLocalConfigPath w = cwd w @ ''/.div-flow.json''"

subsection \<open>The schema\<close>

text \<open>
  \<^verbatim>\<open>export const configSchema = z.object({
  googleAiKey: z.string().optional(),
  githubToken: z.string().optional(),
  linearApiKey: z.string().optional(),
  linearEnabled: z.boolean().optional().default(true),
});\<close>

  The outer \<open>option\<close> of the field parsers is the validation: \<open>None\<close> when zod throws.
  Keys outside the schema are dropped.
\<close>

definition string_optional :: "json option \<Rightarrow> cfg_value option option" where
  "string_optional v =
     (case v of
        None \<Rightarrow> Some None
      | Some (JStr s) \<Rightarrow> Some (Some (VStr s))
      | Some _ \<Rightarrow> None)"

definition boolean_optional_default_true :: "json option \<Rightarrow> cfg_value option option" where
  "boolean_optional_default_true v =
     (case v of
        None \<Rightarrow> Some (Some (VBool True))
      | Some (JBool b) \<Rightarrow> Some (Some (VBool b))
      | Some _ \<Rightarrow> None)"

definition configSchema_parse :: "json \<Rightarrow> Config option" where
  "configSchema_parse j =
     (case j of
        JObj kvs \<Rightarrow>
          (case (string_optional (map_of kvs ''googleAiKey''),
                 string_optional (map_of kvs ''githubToken''),
                 string_optional (map_of kvs ''linearApiKey''),
                 boolean_optional_default_true (map_of kvs ''linearEnabled'')) of
             (Some g, Some t, Some l, Some e) \<Rightarrow>
               Some (\<lambda>k. case k of googleAiKey \<Rightarrow> g | githubToken \<Rightarrow> t
                                  | linearApiKey \<Rightarrow> l | linearEnabled \<Rightarrow> e)
           | _ \<Rightarrow> None)
      | _ \<Rightarrow> None)"

definition ENV_TO_CONFIG :: "(string \<times> ConfigKey) list" where
  "ENV_TO_CONFIG =
     [(''GOOGLE_AI_KEY'', googleAiKey),
      (''GH_TOKEN'', githubToken),
      (''GITHUB_TOKEN'', githubToken),
      (''LINEAR_API_KEY'', linearApiKey),
      (''LINEAR_ENABLED'', linearEnabled)]"

subsection \<open>Reading and writing\<close>

text \<open>
  \<open>readConfigFile\<close> returns the parsed configuration or \<open>null\<close> (\<open>None\<close>), together
  with the warnings it logged: one \<open>consola.warn\<close> naming the path whenever the
  \<open>catch\<close> branch runs, none when the file does not exist.
\<close>

definition readConfigFile :: "world \<Rightarrow> string \<Rightarrow> Config option \<times> string list" where
  "readConfigFile w filePath =
     (case fs w filePath of
        None \<Rightarrow> (None, [])
      | Some Malformed \<Rightarrow> (None, [''Failed to read config file at '' @ filePath @ '':''])
      | Some (Json parsed) \<Rightarrow>
          (case configSchema_parse parsed of
             Some config \<Rightarrow> (Some config, [])
           | None \<Rightarrow> (None, [''Failed to read config file at '' @ filePath @ '':''])))"

definition key_name :: "ConfigKey \<Rightarrow> string" where
  "key_name k =
     (case k of googleAiKey \<Rightarrow> ''googleAiKey'' | githubToken \<Rightarrow> ''githubToken''
              | linearApiKey \<Rightarrow> ''linearApiKey'' | linearEnabled \<Rightarrow> ''linearEnabled'')"

definition value_json :: "cfg_value \<Rightarrow> json" where
  "value_json v = (case v of VStr s \<Rightarrow> JStr s | VBool b \<Rightarrow> JBool b)"

definition CONFIG_KEYS :: "ConfigKey list" where
  "CONFIG_KEYS = [googleAiKey, githubToken, linearApiKey, linearEnabled]"

text \<open>\<open>JSON.stringify\<close> leaves out the keys whose value is \<open>undefined\<close>.\<close>

definition stringify :: "Config \<Rightarrow> json" where
  "stringify config =
     JObj (concat (map (\<lambda>k. case config k of None \<Rightarrow> [] | Some v \<Rightarrow> [(key_name k, value_json v)])
                       CONFIG_KEYS))"

text \<open>
  \<open>writeConfigFile\<close>: the \<open>mkdir -p\<close> is best effort; \<open>Bun.write\<close> either stores the
  text or throws, and the exception is logged and thrown on (\<open>Inl\<close>).
\<close>

definition writeConfigFile :: "world \<Rightarrow> string \<Rightarrow> Config \<Rightarrow> string + world" where
  "writeConfigFile w filePath config =
     (if write_fails w then Inl (''Failed to write config file at '' @ filePath @ '':'')
      else Inr (w\<lparr>fs := (fs w)(filePath \<mapsto> Json (stringify config))\<rparr>))"

subsection \<open>Resolution\<close>

text \<open>
  \<^verbatim>\<open>for (const [envKey, configKey] of Object.entries(ENV_TO_CONFIG)) {
  const value = process.env[envKey];
  if (value) {
    if (configKey === "linearEnabled") {
      config[configKey] = value.toLowerCase() === "true" || value === "1";
    } else { config[configKey] = value; }
  }
}\<close>
\<close>

definition env_entry :: "world \<Rightarrow> Config \<Rightarrow> string \<times> ConfigKey \<Rightarrow> Config" where
  "env_entry w config entry =
     (case entry of (envKey, configKey) \<Rightarrow>
        (case env w envKey of
           None \<Rightarrow> config
         | Some v \<Rightarrow>
             (if v = [] then config
              else if configKey = linearEnabled
                then config(configKey \<mapsto> VBool (toLowerCase v = ''true'' \<or> v = ''1''))
                else config(configKey \<mapsto> VStr v))))"

definition getConfigFromEnv :: "world \<Rightarrow> Config" where
  "getConfigFromEnv w = foldl (env_entry w) Map.empty ENV_TO_CONFIG"

definition getConfig :: "world \<Rightarrow> Config \<times> string list" where
  "getConfig w =
     (case readConfigFile w (getLocalConfigPath w) of
        (Some localConfig, warned) \<Rightarrow> (localConfig, warned)
      | (None, warned) \<Rightarrow>
          (case readConfigFile w (getGlobalConfigPath w) of
             (Some globalConfig, warned') \<Rightarrow> (globalConfig, warned @ warned')
           | (None, warned') \<Rightarrow> (getConfigFromEnv w, warned @ warned')))"

text \<open>\<^verbatim>\<open>return config.linearEnabled !== false; // Default to true if not set\<close>\<close>

definition isLinearEnabled :: "world \<Rightarrow> bool" where
  "isLinearEnabled w = (fst (getConfig w) linearEnabled \<noteq> Some (VBool False))"

subsection \<open>Updates\<close>

text \<open>
  \<^verbatim>\<open>let config = await readConfigFile(globalPath) || ({} as Config);
config[key] = value as any;
await writeConfigFile(globalPath, config);\<close>
\<close>

definition setConfigValue :: "world \<Rightarrow> ConfigKey \<Rightarrow> cfg_value \<Rightarrow> string + world" where
  "setConfigValue w key v =
     (let globalPath = getGlobalConfigPath w;
          config = (case fst (readConfigFile w globalPath) of Some c \<Rightarrow> c | None \<Rightarrow> Map.empty)
      in writeConfigFile w globalPath (config(key \<mapsto> v)))"

text \<open>
  \<^verbatim>\<open>const updatedConfig: Config = { ...existingConfig, ...values };\<close>

  \<open>values\<close> is a partial object: a key is not named (\<open>None\<close>), or named with
  \<open>undefined\<close> (\<open>Some None\<close>) or with a value. The spread copies every named key.
\<close>

definition spread :: "Config \<Rightarrow> (ConfigKey \<Rightarrow> cfg_value option option) \<Rightarrow> Config" where
  "spread existingConfig values =
     (\<lambda>k. case values k of None \<Rightarrow> existingConfig k | Some v \<Rightarrow> v)"

definition setConfigValues ::
  "world \<Rightarrow> (ConfigKey \<Rightarrow> cfg_value option option) \<Rightarrow> string + world" where
  "setConfigValues w values =
     (let globalPath = getGlobalConfigPath w;
          existingConfig =
            (case fst (readConfigFile w globalPath) of Some c \<Rightarrow> c | None \<Rightarrow> Map.empty)
      in writeConfigFile w globalPath (spread existingConfig values))"

text \<open>The value a JSON file holds under a configuration key, if it is an object.\<close>

definition file_field :: "file_text option \<Rightarrow> ConfigKey \<Rightarrow> json option" where
  "file_field f k =
     (case f of
        Some (Json (JObj kvs)) \<Rightarrow> map_of kvs (key_name k)
      | _ \<Rightarrow> None)"

text \<open>A file counts as usable when it exists, parses and passes the schema.\<close>

definition usable :: "file_text option \<Rightarrow> bool" where
  "usable f =
     (case f of
        Some (Json j) \<Rightarrow> configSchema_parse j \<noteq> None
      | _ \<Rightarrow> False)"

definition parsed_content :: "file_text option \<Rightarrow> Config" where
  "parsed_content f =
     (case f of
        Some (Json j) \<Rightarrow> (case configSchema_parse j of Some c \<Rightarrow> c | None \<Rightarrow> Map.empty)
      | _ \<Rightarrow> Map.empty)"

definition warning_for :: "string \<Rightarrow> string" where
  "warning_for filePath = ''Failed to read config file at '' @ filePath @ '':''"

text \<open>The world with one file removed.\<close>

definition without_file :: "world \<Rightarrow> string \<Rightarrow> world" where
  "without_file w filePath = w\<lparr>fs := (fs w)(filePath := None)\<rparr>"

text \<open>
  Concrete worlds for the examples: the project directory \<open>/p\<close>, the home directory
  \<open>/h\<close>, at most the two configuration files, and an environment.
\<close>

definition example_world ::
  "file_text option \<Rightarrow> file_text option \<Rightarrow> (string \<Rightarrow> string option) \<Rightarrow> world" where
  "example_world local_file global_file environment =
     \<lparr>cwd = ''/p'', homedir = ''/h'',
      fs = [''/p/.div-flow.json'' \<mapsto> Malformed, ''/h/.div-flow/config.json'' \<mapsto> Malformed]
             (''/p/.div-flow.json'' := local_file, ''/h/.div-flow/config.json'' := global_file),
      env = environment, write_fails = False\<rparr>"

definition key_file :: "string \<Rightarrow> file_text option" where
  "key_file k = Some (Json (JObj [(''googleAiKey'', JStr k)]))"

definition world_local :: world where
  "world_local =
     example_world (key_file ''from-local'') (key_file ''from-global'')
       [''GOOGLE_AI_KEY'' \<mapsto> ''from-env'']"

definition world_global :: world where
  "world_global =
     example_world (Some Malformed) (key_file ''from-global'') [''GOOGLE_AI_KEY'' \<mapsto> ''from-env'']"

definition world_env :: world where
  "world_env = example_world None (Some Malformed) [''GOOGLE_AI_KEY'' \<mapsto> ''from-env'']"

text \<open>A global file without the flag, and \<open>LINEAR_ENABLED=false\<close> in the environment.\<close>

definition world_env_false :: world where
  "world_env_false =
     example_world None (key_file ''k'') [''LINEAR_ENABLED'' \<mapsto> ''false'']"

definition world_file_false :: world where
  "world_file_false =
     example_world (Some (Json (JObj [(''linearEnabled'', JBool False)]))) None
       [''LINEAR_ENABLED'' \<mapsto> ''true'']"

definition world_only_env_false :: world where
  "world_only_env_false = example_world None None [''LINEAR_ENABLED'' \<mapsto> ''false'']"

text \<open>
  A global file in which \<open>linearEnabled\<close> holds the string \<open>false\<close>, as
  \<open>handleConfigSet\<close> of \<open>commands/config.ts\<close> stores it (its value is always a string).
\<close>

definition world_string_flag :: world where
  "world_string_flag =
     example_world None
       (Some (Json (JObj [(''googleAiKey'', JStr ''k''), (''linearEnabled'', JStr ''false'')])))
       Map.empty"

definition world_two_keys :: world where
  "world_two_keys =
     example_world (key_file ''from-local'')
       (Some (Json (JObj [(''googleAiKey'', JStr ''k''), (''linearApiKey'', JStr ''l'')])))
       Map.empty"

text \<open>The field of a file after an update: \<open>Inl\<close> when the update threw.\<close>

definition field_after :: "string + world \<Rightarrow> string \<Rightarrow> ConfigKey \<Rightarrow> string + json option" where
  "field_after r filePath k = map_sum id (\<lambda>w'. file_field (fs w' filePath) k) r"

section \<open>AI content generation (workflows/ai)\<close>

text \<open>
  A call that can throw returns a sum: \<open>Inl\<close> carries the text of the exception, \<open>Inr\<close>
  the value. The collaborators are inputs of the model: what each \<open>execSync\<close> command
  does, whether the AI client can be built, what the streaming call delivers (the chunks
  received and, possibly, an exception ending the stream), what the non-streaming call
  returns, and \<open>JSON.parse\<close>. The prompt text does not influence the control flow and is
  not built.
\<close>

type_synonym chunk = "string option list option"

record ai_world =
  execSync :: "string \<Rightarrow> string + string"
  getAI :: "string + unit"
  generateContentStream :: "string + (chunk list \<times> string option)"
  generateContent :: "string + string option"
  JSON_parse :: "string \<Rightarrow> json option"

record CommitMessage =
  cm_type :: string
  cm_scope :: "string option"
  cm_description :: string

record PRContent =
  pr_title :: string
  pr_description :: string
  pr_linear_comment :: "string option"

definition commit_type :: "string list" where
  "commit_type = [''feat'', ''fix'', ''chore'', ''docs'', ''improve'', ''change'', ''hotfix'']"

text \<open>
  \<^verbatim>\<open>const commit_message_schema = z.object({
  type: commit_type, scope: z.string().optional(), description: z.string().min(1) });
const pr_content_schema = z.object({
  title: z.string().min(1).max(72), description: z.string().min(1),
  linear_comment: z.string().optional() });\<close>
\<close>

definition commit_message_schema :: "json \<Rightarrow> string + CommitMessage" where
  "commit_message_schema j =
     (case j of
        JObj kvs \<Rightarrow>
          (case (map_of kvs ''type'', string_optional (map_of kvs ''scope''),
                 map_of kvs ''description'') of
             (Some (JStr t), Some sc, Some (JStr d)) \<Rightarrow>
               (if t \<in> set commit_type \<and> 1 \<le> length d
                then Inr \<lparr>cm_type = t,
                          cm_scope = (case sc of Some (VStr s) \<Rightarrow> Some s | _ \<Rightarrow> None),
                          cm_description = d\<rparr>
                else Inl ''ZodError'')
           | _ \<Rightarrow> Inl ''ZodError'')
      | _ \<Rightarrow> Inl ''ZodError'')"

definition pr_content_schema :: "json \<Rightarrow> string + PRContent" where
  "pr_content_schema j =
     (case j of
        JObj kvs \<Rightarrow>
          (case (map_of kvs ''title'', map_of kvs ''description'',
                 string_optional (map_of kvs ''linear_comment'')) of
             (Some (JStr t), Some (JStr d), Some lc) \<Rightarrow>
               (if 1 \<le> length t \<and> length t \<le> 72 \<and> 1 \<le> length d
                then Inr \<lparr>pr_title = t, pr_description = d,
                          pr_linear_comment = (case lc of Some (VStr s) \<Rightarrow> Some s | _ \<Rightarrow> None)\<rparr>
                else Inl ''ZodError'')
           | _ \<Rightarrow> Inl ''ZodError'')
      | _ \<Rightarrow> Inl ''ZodError'')"

text \<open>
  \<^verbatim>\<open>const OutputSchema = z.preprocess((data) => {
  if (typeof data === "string") {
    try { return JSON.parse(data); }
    catch (e) { ...; throw new Error("Invalid JSON response from AI"); }
  }
  return data;
}, schema);\<close>

  The data is a string or \<open>undefined\<close> (\<open>None\<close>), which no object schema accepts.
\<close>

definition OutputSchema_parse ::
  "ai_world \<Rightarrow> (json \<Rightarrow> string + 'a) \<Rightarrow> string option \<Rightarrow> string + 'a" where
  "OutputSchema_parse w schema data =
     (case data of
        None \<Rightarrow> Inl ''ZodError''
      | Some text \<Rightarrow>
          (case JSON_parse w text of
             None \<Rightarrow> Inl ''Invalid JSON response from AI''
           | Some j \<Rightarrow> schema j))"

text \<open>
  \<^verbatim>\<open>for await (const chunk of stream) {
  if (chunk.candidates?.[0]?.content?.parts) {
    for (const part of chunk.candidates[0].content.parts) {
      if (part.text) { ...; accumulated_response += part.text; ... } } } }\<close>
\<close>

definition part_text :: "string option \<Rightarrow> string" where
  "part_text part = (case part of Some t \<Rightarrow> t | None \<Rightarrow> [])"

definition chunk_text :: "chunk \<Rightarrow> string" where
  "chunk_text c = (case c of None \<Rightarrow> [] | Some parts \<Rightarrow> concat (map part_text parts))"

definition accumulate :: "chunk list \<Rightarrow> string" where
  "accumulate chunks = foldl (\<lambda>accumulated_response c. accumulated_response @ chunk_text c) [] chunks"

text \<open>The inner \<open>try\<close> block: the streaming call, the loop over the chunks, the validation.\<close>

definition streaming_attempt :: "ai_world \<Rightarrow> (json \<Rightarrow> string + 'a) \<Rightarrow> string + 'a" where
  "streaming_attempt w schema =
     (case generateContentStream w of
        Inl e \<Rightarrow> Inl e
      | Inr (chunks, Some e) \<Rightarrow> Inl e
      | Inr (chunks, None) \<Rightarrow> OutputSchema_parse w schema (Some (accumulate chunks)))"

text \<open>
  The outer \<open>try\<close> block with its \<open>catch\<close>, shared by the generators: build the client,
  try streaming, fall back once to the non-streaming call, and return \<open>null\<close> on any
  exception. In \<open>generatePRContent\<close> a failed validation of the streamed text is thrown
  again under another message inside the inner \<open>try\<close>, which lands in the same fallback.
\<close>

definition generate_guarded :: "ai_world \<Rightarrow> (json \<Rightarrow> string + 'a) \<Rightarrow> 'a option" where
  "generate_guarded w schema =
     (case getAI w of
        Inl e \<Rightarrow> None
      | Inr ai \<Rightarrow>
          (case streaming_attempt w schema of
             Inr content \<Rightarrow> Some content
           | Inl streaming_error \<Rightarrow>
               (case generateContent w of
                  Inl e \<Rightarrow> None
                | Inr response_text \<Rightarrow>
                    (case OutputSchema_parse w schema response_text of
                       Inl e \<Rightarrow> None
                     | Inr content \<Rightarrow> Some content))))"

text \<open>
  \<^verbatim>\<open>export const generateCommitMessage = async (user_description?: string) => {
  consola.start("Analyzing staged changes...");
  const diff_summary = execSync("git diff --cached --stat", { encoding: "utf-8" });
  const diff_content = execSync("git diff --cached", { encoding: "utf-8" });
  ...
  try { ... } catch (error) { ...; return null; }
};\<close>

  \<open>Inl\<close> is an exception leaving the function (the promise rejects); \<open>Inr None\<close> is
  \<open>null\<close>.
\<close>

definition generateCommitMessage ::
  "ai_world \<Rightarrow> string option \<Rightarrow> string + CommitMessage option" where
  "generateCommitMessage w user_description =
     (case execSync w ''git diff --cached --stat'' of
        Inl e \<Rightarrow> Inl e
      | Inr diff_summary \<Rightarrow>
          (case execSync w ''git diff --cached'' of
             Inl e \<Rightarrow> Inl e
           | Inr diff_content \<Rightarrow> Inr (generate_guarded w commit_message_schema)))"

text \<open>
  \<^verbatim>\<open>const diff_summary = execSync(`git diff origin/${base_branch}..HEAD --stat`, ...);
const diff_content = execSync(`git diff origin/${base_branch}..HEAD`, ...);
const commit_messages = execSync(`git log origin/${base_branch}..HEAD --pretty=format:"- %s"`, ...);
const commit_count = execSync(`git rev-list --count origin/${base_branch}..HEAD`, ...).trim();\<close>
\<close>

definition generatePRContent ::
  "ai_world \<Rightarrow> string \<Rightarrow> string \<Rightarrow> string option \<Rightarrow> string + PRContent option" where
  "generatePRContent w current_branch base_branch user_description =
     (case execSync w (''git diff origin/'' @ base_branch @ ''..HEAD --stat'') of
        Inl e \<Rightarrow> Inl e
      | Inr diff_summary \<Rightarrow>
          (case execSync w (''git diff origin/'' @ base_branch @ ''..HEAD'') of
             Inl e \<Rightarrow> Inl e
           | Inr diff_content \<Rightarrow>
               (case execSync w (''git log origin/'' @ base_branch @ ''..HEAD --pretty=format:\"- %s\"'') of
                  Inl e \<Rightarrow> Inl e
                | Inr commit_messages \<Rightarrow>
                    (case execSync w (''git rev-list --count origin/'' @ base_branch @ ''..HEAD'') of
                       Inl e \<Rightarrow> Inl e
                     | Inr commit_count \<Rightarrow> Inr (generate_guarded w pr_content_schema)))))"

definition valid_commit_message :: "CommitMessage \<Rightarrow> bool" where
  "valid_commit_message c = (cm_type c \<in> set commit_type \<and> 1 \<le> length (cm_description c))"

definition valid_pr_content :: "PRContent \<Rightarrow> bool" where
  "valid_pr_content p =
     (1 \<le> length (pr_title p) \<and> length (pr_title p) \<le> 72 \<and> 1 \<le> length (pr_description p))"

text \<open>
  A world in which no shell command succeeds, as when \<open>git\<close> cannot run in the current
  directory, or when \<open>origin/develop\<close> is not a known revision for the commands of
  \<open>generatePRContent\<close>.
\<close>

definition world_git_fails :: ai_world where
  "world_git_fails =
     \<lparr>execSync = (\<lambda>cmd. Inl (''Error: Command failed: '' @ cmd)),
      getAI = Inr (),
      generateContentStream = Inr ([], None),
      generateContent = Inr None,
      JSON_parse = (\<lambda>text. None)\<rparr>"

text \<open>A world in which everything works and the model answers with one JSON text.\<close>

definition world_ai_answers :: ai_world where
  "world_ai_answers =
     \<lparr>execSync = (\<lambda>cmd. Inr []),
      getAI = Inr (),
      generateContentStream = Inr ([Some [Some ''{}'']], None),
      generateContent = Inr None,
      JSON_parse = (\<lambda>text. if text = ''{}''
         then Some (JObj [(''type'', JStr ''fix''), (''description'', JStr ''repair login'')])
         else None)\<rparr>"

section \<open>Protected branches (workflows/git)\<close>

definition PROTECTED_BRANCHES :: "string list" where
  "PROTECTED_BRANCHES = [''main'', ''develop'', ''staging'']"

definition isProtectedBranch :: "string \<Rightarrow> bool" where
  "isProtectedBranch branch = (branch \<in> set PROTECTED_BRANCHES)"

section \<open>The commit workflow (workflows/commit-workflow)\<close>

text \<open>
  A run is its trace: the shell commands executed, the console output, the prompts shown
  and a final \<open>process.exit\<close>, in order. The world answers every command and every
  prompt; its answer may depend on the trace so far, so the same command can succeed at
  one point and fail at another. A failing command answers \<open>Inl\<close> with the text of
  \<open>String(error)\<close>.
\<close>

datatype event =
    Exec string
  | Start string
  | Success string
  | Info string
  | Warn string
  | Error string
  | Print string
  | Prompt string
  | Exit nat

datatype outcome = Done | Thrown string | Exited nat

record commit_world =
  run :: "event list \<Rightarrow> string \<Rightarrow> string + string"
  confirm :: "event list \<Rightarrow> string \<Rightarrow> bool"
  select :: "event list \<Rightarrow> string \<Rightarrow> string"

definition is_space :: "char \<Rightarrow> bool" where
  "is_space c = (c \<in> set [CHR '' '', CHR 0x09, CHR 0x0A, CHR 0x0B, CHR 0x0C, CHR 0x0D])"

definition trim :: "string \<Rightarrow> string" where
  "trim s = rev (dropWhile is_space (rev (dropWhile is_space s)))"

text \<open>\<open>execSync(cmd)\<close>: the command enters the trace, the world answers.\<close>

definition exec :: "commit_world \<Rightarrow> event list \<Rightarrow> string \<Rightarrow> event list \<times> (string + string)" where
  "exec w tr cmd = (tr @ [Exec cmd], run w tr cmd)"

definition ask_confirm :: "commit_world \<Rightarrow> event list \<Rightarrow> string \<Rightarrow> event list \<times> bool" where
  "ask_confirm w tr question = (tr @ [Prompt question], confirm w tr question)"

definition ask_select :: "commit_world \<Rightarrow> event list \<Rightarrow> string \<Rightarrow> event list \<times> string" where
  "ask_select w tr question = (tr @ [Prompt question], select w tr question)"

subsection \<open>Pull, then push again\<close>

text \<open>
  \<^verbatim>\<open>try {
  consola.start("Pulling remote changes...");
  execSync(`git pull origin ${branch}`);
  consola.success("Merged remote changes");
  execSync(`git push origin ${branch}`);
  consola.success("Changes pushed successfully!");
} catch {
  consola.error("Failed to pull and push. You may need to resolve conflicts.");
}\<close>
  and the same with \<open>git pull --rebase\<close>.
\<close>

definition pull_then_push ::
  "commit_world \<Rightarrow> event list \<Rightarrow> string \<Rightarrow> string \<Rightarrow> string \<Rightarrow> string \<Rightarrow> string \<Rightarrow> event list" where
  "pull_then_push w tr starting pull_cmd pulled push_cmd failed =
     (case exec w (tr @ [Start starting]) pull_cmd of
        (tr1, Inl e) \<Rightarrow> tr1 @ [Error failed]
      | (tr1, Inr out) \<Rightarrow>
          (case exec w (tr1 @ [Success pulled]) push_cmd of
             (tr2, Inl e) \<Rightarrow> tr2 @ [Error failed]
           | (tr2, Inr out') \<Rightarrow> tr2 @ [Success ''Changes pushed successfully!'']))"

subsection \<open>After a failed push: the snapshot with the guard\<close>

text \<open>
  The \<open>catch\<close> block of the push in \<open>processCommit\<close>, in the snapshot of the file that
  imports \<open>isProtectedBranch\<close>:
  \<^verbatim>\<open>} else if (action === "force") {
  // CRITICAL: Never allow force push to protected branches
  if (isProtectedBranch(branch)) {
    consola.error(`... CRITICAL: Cannot force push to protected branch "${branch}"`);
    consola.error(`Protected branches (main, develop, staging) cannot be force-pushed.`);
    consola.error(`This is a safety measure to prevent accidental overwriting of critical branches.`);
    consola.info("Please use pull/rebase instead, or switch to a feature branch.");
    return;
  }
  execSync(`git push --force origin ${branch}`);
  consola.success("Changes force-pushed successfully!");
}\<close>
  The first message starts with the cross mark U+274C, three bytes in UTF-8.
\<close>

definition cross_mark :: string where
  "cross_mark = [CHR 0xE2, CHR 0x9D, CHR 0x8C]"

definition force_push_blocked :: "string \<Rightarrow> event list" where
  "force_push_blocked branch =
     [Error (cross_mark @ '' CRITICAL: Cannot force push to protected branch \"'' @ branch @ ''\"''),
      Error ''Protected branches (main, develop, staging) cannot be force-pushed.'',
      Error ''This is a safety measure to prevent accidental overwriting of critical branches.'']"

definition force_push :: "commit_world \<Rightarrow> event list \<Rightarrow> string \<Rightarrow> event list \<times> outcome" where
  "force_push w tr branch =
     (case exec w tr (''git push --force origin '' @ branch) of
        (tr1, Inl e) \<Rightarrow> (tr1, Thrown e)
      | (tr1, Inr out) \<Rightarrow> (tr1 @ [Success ''Changes force-pushed successfully!''], Done))"

definition diverged :: "string \<Rightarrow> bool" where
  "diverged error_str =
     (includes_str error_str ''non-fast-forward'' \<or> includes_str error_str ''rejected'')"

definition diverged_question :: string where
  "diverged_question = ''Remote has changes. What would you like to do?''"

definition push_failed :: "commit_world \<Rightarrow> event list \<Rightarrow> string \<Rightarrow> string \<Rightarrow> event list \<times> outcome" where
  "push_failed w tr branch error_str =
     (let tr0 = tr @ [Error ''Failed to push changes''] in
      if diverged error_str then
        (case ask_select w tr0 diverged_question of
           (tr1, action) \<Rightarrow>
             if action = ''pull'' then
               (pull_then_push w tr1 ''Pulling remote changes...''
                  (''git pull origin '' @ branch) ''Merged remote changes''
                  (''git push origin '' @ branch)
                  ''Failed to pull and push. You may need to resolve conflicts.'', Done)
             else if action = ''rebase'' then
               (pull_then_push w tr1 ''Rebasing on remote changes...''
                  (''git pull --rebase origin '' @ branch) ''Rebased on remote changes''
                  (''git push origin '' @ branch)
                  ''Failed to rebase. You may need to resolve conflicts.'', Done)
             else if action = ''force'' then
               (if isProtectedBranch branch then
                  (tr1 @ force_push_blocked branch @
                     [Info ''Please use pull/rebase instead, or switch to a feature branch.''], Done)
                else force_push w tr1 branch)
             else (tr1, Done))
      else
        (case ask_confirm w tr0 ''Force push?'' of
           (tr1, force_push_answer) \<Rightarrow>
             if force_push_answer then
               (if isProtectedBranch branch then (tr1 @ force_push_blocked branch, Done)
                else force_push w tr1 branch)
             else (tr1, Done)))"

subsection \<open>After a failed push: the snapshot without the guard\<close>

text \<open>
  The same block in \<open>src/workflows/commit-workflow.ts\<close>:
  \<^verbatim>\<open>} else if (action === "force") {
  execSync(`git push --force origin ${branch}`);
  consola.success("Changes force-pushed successfully!");
}\<close>
\<close>

definition push_failed_unguarded ::
  "commit_world \<Rightarrow> event list \<Rightarrow> string \<Rightarrow> string \<Rightarrow> event list \<times> outcome" where
  "push_failed_unguarded w tr branch error_str =
     (let tr0 = tr @ [Error ''Failed to push changes''] in
      if diverged error_str then
        (case ask_select w tr0 diverged_question of
           (tr1, action) \<Rightarrow>
             if action = ''pull'' then
               (pull_then_push w tr1 ''Pulling remote changes...''
                  (''git pull origin '' @ branch) ''Merged remote changes''
                  (''git push origin '' @ branch)
                  ''Failed to pull and push. You may need to resolve conflicts.'', Done)
             else if action = ''rebase'' then
               (pull_then_push w tr1 ''Rebasing on remote changes...''
                  (''git pull --rebase origin '' @ branch) ''Rebased on remote changes''
                  (''git push origin '' @ branch)
                  ''Failed to rebase. You may need to resolve conflicts.'', Done)
             else if action = ''force'' then force_push w tr1 branch
             else (tr1, Done))
      else
        (case ask_confirm w tr0 ''Force push?'' of
           (tr1, force_push_answer) \<Rightarrow>
             if force_push_answer then force_push w tr1 branch else (tr1, Done)))"

subsection \<open>processCommit\<close>

text \<open>
  \<^verbatim>\<open>execSync("git add .");
execSync(`git commit -m "${message}"`);
consola.success("Changes committed successfully!");
const branch = execSync("git branch --show-current", { encoding: "utf-8" }).trim();
consola.info(`Current branch: ${branch}`);
const should_push = await consola.prompt("Push to origin?", { type: "confirm", default: true });
if (should_push) {
  consola.start(`Pushing to origin/${branch}...`);
  try { execSync(`git push origin ${branch}`); consola.success("Changes pushed successfully!"); }
  catch (error: unknown) { ... }
}\<close>

  \<open>processCommit_try\<close> is the body of the outer \<open>try\<close>, with the handler of a failed
  push as a parameter; the outcome \<open>Thrown\<close> is an exception reaching the outer \<open>catch\<close>.
\<close>

definition processCommit_try ::
  "(commit_world \<Rightarrow> event list \<Rightarrow> string \<Rightarrow> string \<Rightarrow> event list \<times> outcome) \<Rightarrow>
   commit_world \<Rightarrow> event list \<Rightarrow> string \<Rightarrow> event list \<times> outcome" where
  "processCommit_try on_push_failure w tr message =
     (case exec w (tr @ [Start ''Committing changes...'']) ''git add .'' of
        (tr1, Inl e) \<Rightarrow> (tr1, Thrown e)
      | (tr1, Inr out1) \<Rightarrow>
          (case exec w tr1 (''git commit -m \"'' @ message @ ''\"'') of
             (tr2, Inl e) \<Rightarrow> (tr2, Thrown e)
           | (tr2, Inr out2) \<Rightarrow>
               (case exec w (tr2 @ [Success ''Changes committed successfully!''])
                       ''git branch --show-current'' of
                  (tr3, Inl e) \<Rightarrow> (tr3, Thrown e)
                | (tr3, Inr out3) \<Rightarrow>
                    (let branch = trim out3 in
                     case ask_confirm w (tr3 @ [Info (''Current branch: '' @ branch)])
                            ''Push to origin?'' of
                       (tr4, should_push) \<Rightarrow>
                         if should_push then
                           (case exec w (tr4 @ [Start (''Pushing to origin/'' @ branch @ ''...'')])
                                   (''git push origin '' @ branch) of
                              (tr5, Inr out5) \<Rightarrow>
                                (tr5 @ [Success ''Changes pushed successfully!''], Done)
                            | (tr5, Inl error_str) \<Rightarrow> on_push_failure w tr5 branch error_str)
                         else (tr4, Done)))))"

text \<open>
  The snapshot with the guard. Its outer \<open>catch\<close> (the analysis of failed commit hooks)
  is not part of the model: a run that reaches it ends here with \<open>Thrown\<close>.
\<close>

definition processCommit :: "commit_world \<Rightarrow> event list \<Rightarrow> string \<Rightarrow> event list \<times> outcome" where
  "processCommit w tr message = processCommit_try push_failed w tr message"

text \<open>
  \<open>src/workflows/commit-workflow.ts\<close>, whole:
  \<^verbatim>\<open>} catch (error) {
  consola.error("Failed to commit changes");
  consola.error(error);
  process.exit(1);
}\<close>
\<close>

definition processCommit_unguarded ::
  "commit_world \<Rightarrow> event list \<Rightarrow> string \<Rightarrow> event list \<times> outcome" where
  "processCommit_unguarded w tr message =
     (case processCommit_try push_failed_unguarded w tr message of
        (tr1, Thrown e) \<Rightarrow> (tr1 @ [Error ''Failed to commit changes'', Error e, Exit 1], Exited 1)
      | r \<Rightarrow> r)"

subsection \<open>The head of commitWorkflow\<close>








subsection \<open>Example worlds\<close>

text \<open>
  The branch is \<open>main\<close>, the first push is rejected as non-fast-forward, and the user
  picks \<open>force\<close>; every other command succeeds and every confirmation is accepted.
\<close>

definition world_rejected_main :: commit_world where
  "world_rejected_main =
     \<lparr>run = (\<lambda>tr cmd.
        if cmd = ''git push origin main''
          then Inl ''Error: Command failed: git push origin main ! [rejected] main -> main (non-fast-forward)''
        else if cmd = ''git branch --show-current'' then Inr (''main'' @ [CHR 0x0A])
        else Inr []),
      confirm = (\<lambda>tr question. True),
      select = (\<lambda>tr question. ''force'')\<rparr>"



text \<open>The shell commands of a trace, in order.\<close>

fun commands :: "event list \<Rightarrow> string list" where
  "commands [] = []"
| "commands (Exec c # es) = c # commands es"
| "commands (e # es) = commands es"

section \<open>Facts about characters and runs\<close>

lemmas char_class_defs =
  is_alpha_def is_lower_def is_upper_def lower_letters_def upper_letters_def
  is_digit_def is_alnum_def upper_char_def lower_char_def toUpperCase_def toLowerCase_def

lemma dash_not_alpha: "\<not> is_alpha CHR ''-''"
  by (simp add: is_alpha_def is_lower_def is_upper_def lower_letters_def upper_letters_def)

lemma dash_not_digit: "\<not> is_digit CHR ''-''"
  by (simp add: is_digit_def)

lemma takeWhile_run: "list_all P xs \<Longrightarrow> \<not> P y \<Longrightarrow> takeWhile P (xs @ y # ys) = xs"
  by (induction xs) auto

lemma dropWhile_run: "list_all P xs \<Longrightarrow> \<not> P y \<Longrightarrow> dropWhile P (xs @ y # ys) = y # ys"
  by (induction xs) auto

lemma match_issue_at_complete:
  assumes "letters \<noteq> []" "list_all is_alpha letters" "digits \<noteq> []" "list_all is_digit digits"
  shows "match_issue_at (letters @ ''-'' @ digits @ ''-'' @ rest) = Some (letters @ ''-'' @ digits)"
  using assms
  by (simp add: match_issue_at_def takeWhile_run dropWhile_run dash_not_alpha dash_not_digit)

lemma match_issue_at_sound:
  assumes "match_issue_at s = Some g"
  shows "\<exists>letters digits rest. s = letters @ ''-'' @ digits @ ''-'' @ rest \<and> g = letters @ ''-'' @ digits \<and>
     letters \<noteq> [] \<and> list_all is_alpha letters \<and> digits \<noteq> [] \<and> list_all is_digit digits"
proof -
  define ls where "ls = takeWhile is_alpha s"
  define r1 where "r1 = dropWhile is_alpha s"
  from assms obtain r2 where r1: "r1 = CHR ''-'' # r2" and ls: "ls \<noteq> []"
    by (auto simp: match_issue_at_def Let_def ls_def r1_def split: if_splits list.splits)
  define ds where "ds = takeWhile is_digit r2"
  define r3 where "r3 = dropWhile is_digit r2"
  from assms r1 obtain r4 where r3: "r3 = CHR ''-'' # r4" and ds: "ds \<noteq> []" and g: "g = ls @ ''-'' @ ds"
    by (auto simp: match_issue_at_def Let_def ls_def r1_def ds_def r3_def split: if_splits list.splits)
  have "s = ls @ r1" by (simp add: ls_def r1_def)
  moreover have "r2 = ds @ r3" by (simp add: ds_def r3_def)
  moreover have "list_all is_alpha ls" unfolding ls_def by (simp add: list_all_iff) (meson set_takeWhileD)
  moreover have "list_all is_digit ds" unfolding ds_def by (simp add: list_all_iff) (meson set_takeWhileD)
  ultimately show ?thesis using r1 r3 ls ds g by auto
qed


section \<open>Detecting issue identifiers\<close>

lemma issue_occurrence_Nil:
  "issue_occurrence (c # s) [] letters digits rest \<Longrightarrow>
     c = CHR ''/'' \<and> match_issue_at s = Some (letters @ ''-'' @ digits)"
  using match_issue_at_complete [of letters digits rest]
  by (auto simp: issue_occurrence_def)

lemma issue_occurrence_Cons:
  "issue_occurrence (c # s) (p # pre) letters digits rest \<longleftrightarrow>
     p = c \<and> issue_occurrence s pre letters digits rest"
  by (auto simp: issue_occurrence_def)

lemma issue_occurrence_empty: "\<not> issue_occurrence [] pre letters digits rest"
  by (simp add: issue_occurrence_def)

lemma linear_pattern_match_complete:
  "issue_occurrence b pre letters digits rest \<Longrightarrow> linear_pattern_match b \<noteq> None"
proof (induction b arbitrary: pre)
  case Nil
  then show ?case by (simp add: issue_occurrence_empty)
next
  case (Cons c s)
  show ?case
  proof (cases pre)
    case Nil
    with Cons.prems show ?thesis by (auto dest: issue_occurrence_Nil)
  next
    case (Cons p pre')
    with Cons.prems have "issue_occurrence s pre' letters digits rest"
      by (simp add: issue_occurrence_Cons)
    then have "linear_pattern_match s \<noteq> None" by (rule Cons.IH)
    then show ?thesis by (auto split: option.splits)
  qed
qed

lemma linear_pattern_match_leftmost:
  "linear_pattern_match b = Some g \<Longrightarrow>
     \<exists>pre letters digits rest. issue_occurrence b pre letters digits rest \<and>
        g = letters @ ''-'' @ digits \<and>
        (\<forall>pre' letters' digits' rest'.
            issue_occurrence b pre' letters' digits' rest' \<longrightarrow> length pre \<le> length pre')"
proof (induction b)
  case Nil
  then show ?case by simp
next
  case (Cons c s)
  show ?case
  proof (cases "c = CHR ''/'' \<and> match_issue_at s \<noteq> None")
    case True
    with Cons.prems have m: "match_issue_at s = Some g" by (auto split: option.splits)
    from match_issue_at_sound [OF m] obtain letters digits rest where
      "s = letters @ ''-'' @ digits @ ''-'' @ rest" "g = letters @ ''-'' @ digits"
      "letters \<noteq> []" "list_all is_alpha letters" "digits \<noteq> []" "list_all is_digit digits"
      by blast
    with True have "issue_occurrence (c # s) [] letters digits rest \<and> g = letters @ ''-'' @ digits"
      by (simp add: issue_occurrence_def)
    then have "issue_occurrence (c # s) [] letters digits rest \<and> g = letters @ ''-'' @ digits \<and>
        (\<forall>pre' letters' digits' rest'.
            issue_occurrence (c # s) pre' letters' digits' rest' \<longrightarrow> length ([]::string) \<le> length pre')"
      by simp
    then show ?thesis by blast
  next
    case False
    with Cons.prems have "linear_pattern_match s = Some g" by (auto split: option.splits if_splits)
    from Cons.IH [OF this] obtain pre letters digits rest where
      occ: "issue_occurrence s pre letters digits rest" and g: "g = letters @ ''-'' @ digits" and
      least: "\<And>pre' letters' digits' rest'.
            issue_occurrence s pre' letters' digits' rest' \<Longrightarrow> length pre \<le> length pre'"
      by blast
    have "issue_occurrence (c # s) (c # pre) letters digits rest"
      using occ by (simp add: issue_occurrence_Cons)
    moreover have "length (c # pre) \<le> length pre'"
      if "issue_occurrence (c # s) pre' letters' digits' rest'" for pre' letters' digits' rest'
    proof (cases pre')
      case Nil
      with that False show ?thesis by (auto dest: issue_occurrence_Nil)
    next
      case (Cons p q)
      with that have "issue_occurrence s q letters' digits' rest'" by (simp add: issue_occurrence_Cons)
      from least [OF this] Cons show ?thesis by simp
    qed
    ultimately show ?thesis using g by blast
  qed
qed

text \<open>
  Claim C6. When the branch name contains a slash, letters, a dash, digits and a dash in
  a row, \<open>detectLinearIssue\<close> returns the letters-dash-digits part of the leftmost such
  place in upper case; when it contains no such place, the result is \<open>null\<close>. The two
  examples of the specification are part of the statement.
\<close>

theorem detectLinearIssue_spec:
  "((\<exists>pre letters digits rest. issue_occurrence b pre letters digits rest) \<longrightarrow>
      (\<exists>pre letters digits rest. issue_occurrence b pre letters digits rest \<and>
          (\<forall>pre' letters' digits' rest'.
              issue_occurrence b pre' letters' digits' rest' \<longrightarrow> length pre \<le> length pre') \<and>
          detectLinearIssue b = Some (toUpperCase (letters @ ''-'' @ digits)))) \<and>
   ((\<nexists>pre letters digits rest. issue_occurrence b pre letters digits rest) \<longrightarrow>
      detectLinearIssue b = None) \<and>
   detectLinearIssue ''aaron/dev-123-feature'' = Some ''DEV-123'' \<and>
   detectLinearIssue ''main'' = None"
proof (intro conjI impI)
  assume "\<exists>pre letters digits rest. issue_occurrence b pre letters digits rest"
  then obtain pre0 l0 d0 r0 where "issue_occurrence b pre0 l0 d0 r0" by blast
  then have "linear_pattern_match b \<noteq> None" by (rule linear_pattern_match_complete)
  then obtain g where g: "linear_pattern_match b = Some g" by blast
  from linear_pattern_match_leftmost [OF g] obtain pre letters digits rest where
    occ: "issue_occurrence b pre letters digits rest" and
    gl: "g = letters @ ''-'' @ digits" and
    least: "\<forall>pre' letters' digits' rest'.
      issue_occurrence b pre' letters' digits' rest' \<longrightarrow> length pre \<le> length pre'"
    by blast
  have "detectLinearIssue b = Some (toUpperCase (letters @ ''-'' @ digits))"
    unfolding detectLinearIssue_def g gl by simp
  with occ least
  show "\<exists>pre letters digits rest. issue_occurrence b pre letters digits rest \<and>
          (\<forall>pre' letters' digits' rest'.
              issue_occurrence b pre' letters' digits' rest' \<longrightarrow> length pre \<le> length pre') \<and>
          detectLinearIssue b = Some (toUpperCase (letters @ ''-'' @ digits))"
    by blast
next
  assume none: "\<nexists>pre letters digits rest. issue_occurrence b pre letters digits rest"
  show "detectLinearIssue b = None"
  proof (cases "linear_pattern_match b")
    case None
    then show ?thesis by (simp add: detectLinearIssue_def)
  next
    case (Some g)
    from linear_pattern_match_leftmost [OF Some] obtain pre letters digits rest where
      "issue_occurrence b pre letters digits rest" by blast
    with none show ?thesis by blast
  qed
next
  show "detectLinearIssue ''aaron/dev-123-feature'' = Some ''DEV-123''"
    by (simp add: detectLinearIssue_def match_issue_at_def char_class_defs)
next
  show "detectLinearIssue ''main'' = None"
    by (simp add: detectLinearIssue_def)
qed

theorem detectLinearIssue_spec_witness:
  "issue_occurrence ''aaron/dev-123-feature'' ''aaron'' ''dev'' ''123'' ''feature'' \<and>
   detectLinearIssue ''aaron/dev-123-feature'' = Some (toUpperCase ''dev-123'') \<and>
   (\<nexists>pre letters digits rest. issue_occurrence ''main'' pre letters digits rest) \<and>
   detectLinearIssue ''main'' = None"
proof -
  have occ: "issue_occurrence ''aaron/dev-123-feature'' ''aaron'' ''dev'' ''123'' ''feature''"
    by (simp add: issue_occurrence_def char_class_defs)
  have main: "detectLinearIssue ''main'' = None" by (simp add: detectLinearIssue_def)
  have no: "\<nexists>pre letters digits rest. issue_occurrence ''main'' pre letters digits rest"
    using detectLinearIssue_spec [of "''main''"] main by auto
  have "\<exists>pre letters digits rest.
          issue_occurrence ''aaron/dev-123-feature'' pre letters digits rest"
    using occ by blast
  with detectLinearIssue_spec [of "''aaron/dev-123-feature''"]
  have "detectLinearIssue ''aaron/dev-123-feature'' = Some (toUpperCase ''dev-123'')"
    by (simp add: char_class_defs)
  with occ no main show ?thesis by simp
qed


section \<open>Cleaning titles\<close>












section \<open>Issue-derived branch names\<close>

lemma split_str_nonempty: "split_str sep s \<noteq> []"
  by (induction s) (auto split: list.splits)

lemma split_str_no_sep: "sep \<notin> set s \<Longrightarrow> split_str sep s = [s]"
  by (induction s) auto

lemma split_str_sep: "sep \<in> set s \<Longrightarrow> \<exists>x y ys. split_str sep s = x # y # ys"
proof (induction s)
  case Nil
  then show ?case by simp
next
  case (Cons c s)
  show ?case
  proof (cases "c = sep")
    case True
    then show ?thesis using split_str_nonempty [of sep s]
      by (cases "split_str sep s") auto
  next
    case False
    with Cons.prems have "sep \<in> set s" by simp
    from Cons.IH [OF this] False show ?thesis by auto
  qed
qed

lemma last_split_str:
  "last (split_str sep s) = rev (takeWhile (\<lambda>c. c \<noteq> sep) (rev s))"
proof (induction s)
  case Nil
  then show ?case by simp
next
  case (Cons c s)
  show ?case
  proof (cases "c = sep")
    case True
    then show ?thesis using Cons.IH split_str_nonempty [of sep s]
      by (simp add: takeWhile_append)
  next
    case False
    show ?thesis
    proof (cases "sep \<in> set s")
      case True
      from split_str_sep [OF this] obtain x y ys where "split_str sep s = x # y # ys" by blast
      with Cons.IH False True show ?thesis by (auto simp: takeWhile_append)
    next
      case False
      with \<open>c \<noteq> sep\<close> show ?thesis
        by (simp add: split_str_no_sep takeWhile_append)
    qed
  qed
qed

lemma pop_split_str: "pop (split_str CHR ''/'' b) = Some (text_after_last_slash b)"
proof -
  have "pop xs = Some (last xs)" if "xs \<noteq> []" for xs :: "string list"
    using that by (cases xs rule: rev_cases) (auto simp: pop_def)
  then show ?thesis
    by (simp add: split_str_nonempty last_split_str text_after_last_slash_def)
qed

lemma keep_or_dash_eq_dash: "keep_or_dash x = CHR ''-'' \<longleftrightarrow> \<not> is_alnum x"
proof (cases "x = CHR ''-''")
  case True
  then show ?thesis
    by (simp add: keep_or_dash_def is_alnum_def dash_not_alpha dash_not_digit)
next
  case False
  then show ?thesis
    by (cases "is_alpha x \<or> is_digit x") (simp_all add: keep_or_dash_def is_alnum_def)
qed

lemma keep_or_dash_alnum: "is_alnum x \<Longrightarrow> keep_or_dash x = x"
  by (auto simp: keep_or_dash_def is_alnum_def)

lemma dash_not_alnum: "\<not> is_alnum CHR ''-''"
  by (simp add: is_alnum_def dash_not_alpha dash_not_digit)

lemma collapse_dashes_map: "collapse_dashes (map keep_or_dash s) = collapse_runs s"
proof (induction s rule: collapse_runs.induct)
  case 1
  then show ?case by simp
next
  case (2 c s)
  show ?case
  proof (cases "is_alnum c")
    case True
    then have "keep_or_dash c = c" "c \<noteq> CHR ''-''"
      using dash_not_alnum by (auto simp: keep_or_dash_alnum)
    with True "2.IH"(1) show ?thesis by simp
  next
    case False
    have "dropWhile (\<lambda>x. x = CHR ''-'') (map keep_or_dash s) =
          map keep_or_dash (dropWhile (\<lambda>x. \<not> is_alnum x) s)"
      by (simp add: dropWhile_map comp_def keep_or_dash_eq_dash)
    with False "2.IH"(2) show ?thesis
      by (simp add: keep_or_dash_eq_dash)
  qed
qed

lemma collapse_runs_head:
  "collapse_runs s = a # r \<Longrightarrow> s \<noteq> [] \<and> (is_alnum (hd s) \<longrightarrow> a = hd s) \<and> (\<not> is_alnum (hd s) \<longrightarrow> a = CHR ''-'')"
  by (cases s) (auto split: if_splits)

lemma no_double_dash_collapse_runs: "no_double_dash (collapse_runs s)"
proof (induction s rule: collapse_runs.induct)
  case 1
  then show ?case by simp
next
  case (2 c s)
  show ?case
  proof (cases "is_alnum c")
    case True
    then have "c \<noteq> CHR ''-''" using dash_not_alnum by auto
    with True "2.IH"(1) show ?thesis
      by (cases "collapse_runs s") auto
  next
    case False
    let ?t = "dropWhile (\<lambda>x. \<not> is_alnum x) s"
    have "a \<noteq> CHR ''-''" if "collapse_runs ?t = a # r" for a r
    proof -
      from collapse_runs_head [OF that] have ne: "?t \<noteq> []" and h: "is_alnum (hd ?t) \<longrightarrow> a = hd ?t"
        by auto
      from ne have "is_alnum (hd ?t)" using hd_dropWhile [of "\<lambda>x. \<not> is_alnum x" s] by auto
      with h dash_not_alnum show ?thesis by auto
    qed
    with False "2.IH"(2) show ?thesis
      by (cases "collapse_runs ?t") auto
  qed
qed

lemma no_double_dash_tl: "no_double_dash (a # s) \<Longrightarrow> no_double_dash s"
  by (cases s) auto

lemma no_double_dash_mid:
  "no_double_dash (xs @ [a, b]) \<Longrightarrow> \<not> (a = CHR ''-'' \<and> b = CHR ''-'')"
proof (induction xs)
  case Nil
  then show ?case by simp
next
  case (Cons x xs)
  then show ?case using no_double_dash_tl by (metis append_Cons)
qed

lemma dropWhile_dash_front:
  "no_double_dash s \<Longrightarrow>
     dropWhile (\<lambda>c. c = CHR ''-'') s =
       (case s of [] \<Rightarrow> [] | c # r \<Rightarrow> (if c = CHR ''-'' then r else s))"
proof (cases s)
  case Nil
  then show ?thesis by simp
next
  case (Cons c r)
  assume nd: "no_double_dash s"
  show ?thesis
  proof (cases r)
    case Nil
    with Cons show ?thesis by simp
  next
    case (Cons d r')
    with nd \<open>s = c # r\<close> show ?thesis by auto
  qed
qed

lemma dropWhile_dash_back:
  "no_double_dash s \<Longrightarrow>
     rev (dropWhile (\<lambda>c. c = CHR ''-'') (rev s)) =
       (if s \<noteq> [] \<and> last s = CHR ''-'' then butlast s else s)"
proof (cases s rule: rev_cases)
  case Nil
  then show ?thesis by simp
next
  case (snoc ys y)
  assume nd: "no_double_dash s"
  show ?thesis
  proof (cases ys rule: rev_cases)
    case Nil
    with snoc show ?thesis by simp
  next
    case (snoc zs z)
    with \<open>s = ys @ [y]\<close> nd have "no_double_dash (zs @ [z, y])" by simp
    from no_double_dash_mid [OF this] snoc \<open>s = ys @ [y]\<close> show ?thesis
      by (auto simp: butlast_append)
  qed
qed

lemma strip_edge_dashes_trim:
  assumes "no_double_dash s"
  shows "strip_edge_dashes s = trim_hyphens s"
proof -
  let ?s1 = "case s of [] \<Rightarrow> [] | c # r \<Rightarrow> (if c = CHR ''-'' then r else s)"
  have s1: "dropWhile (\<lambda>c. c = CHR ''-'') s = ?s1"
    using assms by (rule dropWhile_dash_front)
  have "no_double_dash ?s1"
    using assms no_double_dash_tl by (cases s) auto
  from dropWhile_dash_back [OF this] s1 show ?thesis
    by (simp add: strip_edge_dashes_def trim_hyphens_def Let_def)
qed

lemma clean_description_spec:
  "clean_description d = trim_hyphens (collapse_runs d)"
  by (simp add: clean_description_def collapse_dashes_map strip_edge_dashes_trim
      no_double_dash_collapse_runs)

lemma username_match_spec:
  "username_match b =
     (if CHR ''/'' \<in> set b \<and> takeWhile (\<lambda>c. c \<noteq> CHR ''/'') b \<noteq> []
      then Some (takeWhile (\<lambda>c. c \<noteq> CHR ''/'') b) else None)"
  by (auto simp: username_match_def Let_def dropWhile_eq_Nil_conv)

lemmas branch_name_defs =
  generateLinearBranchName_def spec_branch_name_def spec_author_def spec_description_def
  text_after_last_slash_def username_match_def pop_def clean_description_def
  strip_edge_dashes_def trim_hyphens_def keep_or_dash_def

text \<open>
  Claim C7, as stated, fails where the source falls back to a default. For the branch
  \<open>user/\<close> the text after the last slash is empty, and the source puts \<open>work\<close> in
  its place; the description of the claim gives an empty one.
\<close>

theorem generateLinearBranchName_work_default:
  "generateLinearBranchName ''DEV-123'' ''user/'' = ''user/dev-123-work'' \<and>
   spec_branch_name ''DEV-123'' ''user/'' = ''user/dev-123-'' \<and>
   generateLinearBranchName ''DEV-123'' ''user/'' \<noteq> spec_branch_name ''DEV-123'' ''user/''"
  by (simp add: branch_name_defs char_class_defs)

text \<open>
  Claim C7, amended. The result is \<open>author/identifier-description\<close> with the identifier
  in lower case, where the author is the text before the first slash, or \<open>feature\<close>
  when the branch has no slash or starts with one, and the description is the text after
  the last slash, or \<open>work\<close> when that text is empty, with every run of
  non-alphanumeric characters collapsed to one hyphen and the leading and trailing hyphens
  removed. On a branch that neither starts nor ends with a slash this is the description
  of the claim, and the example of the claim holds.
\<close>

theorem generateLinearBranchName_spec:
  "generateLinearBranchName issue_identifier b =
     (if CHR ''/'' \<in> set b \<and> takeWhile (\<lambda>c. c \<noteq> CHR ''/'') b \<noteq> []
      then takeWhile (\<lambda>c. c \<noteq> CHR ''/'') b else ''feature'')
     @ ''/'' @ toLowerCase issue_identifier @ ''-'' @
     trim_hyphens (collapse_runs
       (if text_after_last_slash b = [] then ''work'' else text_after_last_slash b)) \<and>
   (b \<noteq> [] \<and> hd b \<noteq> CHR ''/'' \<and> last b \<noteq> CHR ''/'' \<longrightarrow>
      generateLinearBranchName issue_identifier b = spec_branch_name issue_identifier b) \<and>
   generateLinearBranchName ''DEV-123'' ''user/-desc!@#-'' = ''user/dev-123-desc''"
proof (intro conjI impI)
  show general: "generateLinearBranchName issue_identifier b =
     (if CHR ''/'' \<in> set b \<and> takeWhile (\<lambda>c. c \<noteq> CHR ''/'') b \<noteq> []
      then takeWhile (\<lambda>c. c \<noteq> CHR ''/'') b else ''feature'')
     @ ''/'' @ toLowerCase issue_identifier @ ''-'' @
     trim_hyphens (collapse_runs
       (if text_after_last_slash b = [] then ''work'' else text_after_last_slash b))"
    by (simp add: generateLinearBranchName_def username_match_spec pop_split_str
        clean_description_spec)
  show "generateLinearBranchName ''DEV-123'' ''user/-desc!@#-'' = ''user/dev-123-desc''"
    by (simp add: branch_name_defs char_class_defs)
  assume b: "b \<noteq> [] \<and> hd b \<noteq> CHR ''/'' \<and> last b \<noteq> CHR ''/''"
  then have front: "takeWhile (\<lambda>c. c \<noteq> CHR ''/'') b \<noteq> []"
    by (cases b) auto
  from b have "takeWhile (\<lambda>c. c \<noteq> CHR ''/'') (rev b) \<noteq> []"
    by (cases b rule: rev_cases) auto
  then have tail_ne: "text_after_last_slash b \<noteq> []"
    by (simp add: text_after_last_slash_def)
  from general front tail_ne
  show "generateLinearBranchName issue_identifier b = spec_branch_name issue_identifier b"
    by (simp add: spec_branch_name_def spec_author_def spec_description_def)
qed

theorem generateLinearBranchName_spec_witness:
  "''aaron/feature-description'' \<noteq> [] \<and> hd ''aaron/feature-description'' \<noteq> CHR ''/'' \<and>
   last ''aaron/feature-description'' \<noteq> CHR ''/'' \<and>
   generateLinearBranchName ''DEV-123'' ''aaron/feature-description'' =
     spec_branch_name ''DEV-123'' ''aaron/feature-description''"
proof -
  have h: "''aaron/feature-description'' \<noteq> [] \<and> hd ''aaron/feature-description'' \<noteq> CHR ''/'' \<and>
     last ''aaron/feature-description'' \<noteq> CHR ''/''"
    by simp
  from generateLinearBranchName_spec [of "''DEV-123''" "''aaron/feature-description''"]
  have "''aaron/feature-description'' \<noteq> [] \<and> hd ''aaron/feature-description'' \<noteq> CHR ''/'' \<and>
     last ''aaron/feature-description'' \<noteq> CHR ''/'' \<longrightarrow>
     generateLinearBranchName ''DEV-123'' ''aaron/feature-description'' =
       spec_branch_name ''DEV-123'' ''aaron/feature-description''"
    by (rule conjunct1 [OF conjunct2])
  with h show ?thesis by blast
qed

section \<open>Configuration resolution\<close>

lemma config_paths_differ: "getLocalConfigPath w \<noteq> getGlobalConfigPath w'"
proof
  assume "getLocalConfigPath w = getGlobalConfigPath w'"
  then have "rev (cwd w @ ''/.div-flow.json'') = rev (homedir w' @ ''/.div-flow/config.json'')"
    by (simp only: getLocalConfigPath_def getGlobalConfigPath_def)
  then show False by simp
qed

lemma readConfigFile_usable:
  "usable (fs w p) \<Longrightarrow> readConfigFile w p = (Some (parsed_content (fs w p)), [])"
  by (auto simp: usable_def readConfigFile_def parsed_content_def
      split: option.splits file_text.splits)

lemma readConfigFile_unusable:
  "\<not> usable (fs w p) \<Longrightarrow>
     readConfigFile w p = (None, if fs w p = None then [] else [warning_for p])"
  by (auto simp: usable_def readConfigFile_def warning_for_def
      split: option.splits file_text.splits)

lemma readConfigFile_without_same: "readConfigFile (without_file w p) p = (None, [])"
  by (simp add: readConfigFile_def without_file_def)

lemma readConfigFile_without_other:
  "q \<noteq> p \<Longrightarrow> readConfigFile (without_file w p) q = readConfigFile w q"
  by (simp add: readConfigFile_def without_file_def)

lemma paths_without_file [simp]:
  "getLocalConfigPath (without_file w p) = getLocalConfigPath w"
  "getGlobalConfigPath (without_file w p) = getGlobalConfigPath w"
  by (simp_all add: getLocalConfigPath_def getGlobalConfigPath_def without_file_def)

lemma env_entry_without_file [simp]: "env_entry (without_file w p) = env_entry w"
  by (auto simp: env_entry_def without_file_def fun_eq_iff split: option.splits)

lemma getConfigFromEnv_without_file [simp]:
  "getConfigFromEnv (without_file w p) = getConfigFromEnv w"
  by (simp add: getConfigFromEnv_def)

lemma getConfig_local:
  "usable (fs w (getLocalConfigPath w)) \<Longrightarrow>
     getConfig w = (parsed_content (fs w (getLocalConfigPath w)), [])"
  by (simp add: getConfig_def readConfigFile_usable)

lemma getConfig_global:
  "\<not> usable (fs w (getLocalConfigPath w)) \<Longrightarrow> usable (fs w (getGlobalConfigPath w)) \<Longrightarrow>
     getConfig w =
       (parsed_content (fs w (getGlobalConfigPath w)),
        if fs w (getLocalConfigPath w) = None then [] else [warning_for (getLocalConfigPath w)])"
  by (simp add: getConfig_def readConfigFile_usable readConfigFile_unusable)

lemma getConfig_env:
  "\<not> usable (fs w (getLocalConfigPath w)) \<Longrightarrow> \<not> usable (fs w (getGlobalConfigPath w)) \<Longrightarrow>
     getConfig w =
       (getConfigFromEnv w,
        (if fs w (getLocalConfigPath w) = None then [] else [warning_for (getLocalConfigPath w)]) @
        (if fs w (getGlobalConfigPath w) = None then [] else [warning_for (getGlobalConfigPath w)]))"
  by (simp add: getConfig_def readConfigFile_unusable)

lemma getConfig_without_local:
  assumes "\<not> usable (fs w (getLocalConfigPath w))"
  shows "fst (getConfig (without_file w (getLocalConfigPath w))) = fst (getConfig w)"
proof -
  have g: "readConfigFile (without_file w (getLocalConfigPath w)) (getGlobalConfigPath w) =
           readConfigFile w (getGlobalConfigPath w)"
    using config_paths_differ [of w w] by (intro readConfigFile_without_other) auto
  show ?thesis
    using assms
    by (simp add: getConfig_def readConfigFile_without_same readConfigFile_unusable g
        split: prod.splits option.splits)
qed

lemma getConfig_without_global:
  assumes "\<not> usable (fs w (getGlobalConfigPath w))"
  shows "fst (getConfig (without_file w (getGlobalConfigPath w))) = fst (getConfig w)"
proof -
  have l: "readConfigFile (without_file w (getGlobalConfigPath w)) (getLocalConfigPath w) =
           readConfigFile w (getLocalConfigPath w)"
    using config_paths_differ [of w w] by (intro readConfigFile_without_other) auto
  show ?thesis
    using assms
    by (simp add: getConfig_def readConfigFile_without_same readConfigFile_unusable l
        split: prod.splits option.splits)
qed

text \<open>
  Claim C3. Resolution takes the first usable source whole. A project-local file that
  exists and passes the schema is returned as parsed, whatever the global file and the
  environment hold. Otherwise a usable global file is returned as parsed, whatever the
  environment holds. Only when neither file is usable is the environment read. A file
  that is malformed or fails the schema gives the result that the same world without the
  file gives, and one warning naming its path is logged.
\<close>

theorem getConfig_first_match_wins:
  "(usable (fs w (getLocalConfigPath w)) \<longrightarrow>
      fst (getConfig w) = parsed_content (fs w (getLocalConfigPath w))) \<and>
   (\<not> usable (fs w (getLocalConfigPath w)) \<and> usable (fs w (getGlobalConfigPath w)) \<longrightarrow>
      fst (getConfig w) = parsed_content (fs w (getGlobalConfigPath w))) \<and>
   (\<not> usable (fs w (getLocalConfigPath w)) \<and> \<not> usable (fs w (getGlobalConfigPath w)) \<longrightarrow>
      fst (getConfig w) = getConfigFromEnv w) \<and>
   (\<not> usable (fs w (getLocalConfigPath w)) \<longrightarrow>
      fst (getConfig w) = fst (getConfig (without_file w (getLocalConfigPath w)))) \<and>
   (\<not> usable (fs w (getGlobalConfigPath w)) \<longrightarrow>
      fst (getConfig w) = fst (getConfig (without_file w (getGlobalConfigPath w)))) \<and>
   (\<not> usable (fs w (getLocalConfigPath w)) \<and> fs w (getLocalConfigPath w) \<noteq> None \<longrightarrow>
      warning_for (getLocalConfigPath w) \<in> set (snd (getConfig w))) \<and>
   (\<not> usable (fs w (getLocalConfigPath w)) \<and> \<not> usable (fs w (getGlobalConfigPath w)) \<and>
    fs w (getGlobalConfigPath w) \<noteq> None \<longrightarrow>
      warning_for (getGlobalConfigPath w) \<in> set (snd (getConfig w)))"
proof (intro conjI impI)
  show "fst (getConfig w) = parsed_content (fs w (getLocalConfigPath w))"
    if "usable (fs w (getLocalConfigPath w))"
    using that by (simp add: getConfig_local)
  show "fst (getConfig w) = parsed_content (fs w (getGlobalConfigPath w))"
    if "\<not> usable (fs w (getLocalConfigPath w)) \<and> usable (fs w (getGlobalConfigPath w))"
    using that by (simp add: getConfig_global)
  show "fst (getConfig w) = getConfigFromEnv w"
    if "\<not> usable (fs w (getLocalConfigPath w)) \<and> \<not> usable (fs w (getGlobalConfigPath w))"
    using that by (simp add: getConfig_env)
  show "fst (getConfig w) = fst (getConfig (without_file w (getLocalConfigPath w)))"
    if "\<not> usable (fs w (getLocalConfigPath w))"
    using that by (simp add: getConfig_without_local)
  show "fst (getConfig w) = fst (getConfig (without_file w (getGlobalConfigPath w)))"
    if "\<not> usable (fs w (getGlobalConfigPath w))"
    using that by (simp add: getConfig_without_global)
  show "warning_for (getLocalConfigPath w) \<in> set (snd (getConfig w))"
    if "\<not> usable (fs w (getLocalConfigPath w)) \<and> fs w (getLocalConfigPath w) \<noteq> None"
    using that
    by (cases "usable (fs w (getGlobalConfigPath w))") (auto simp: getConfig_global getConfig_env)
  show "warning_for (getGlobalConfigPath w) \<in> set (snd (getConfig w))"
    if "\<not> usable (fs w (getLocalConfigPath w)) \<and> \<not> usable (fs w (getGlobalConfigPath w)) \<and>
        fs w (getGlobalConfigPath w) \<noteq> None"
    using that by (auto simp: getConfig_env)
qed

lemmas example_world_defs =
  example_world_def key_file_def getLocalConfigPath_def getGlobalConfigPath_def
  usable_def configSchema_parse_def string_optional_def boolean_optional_default_true_def
  parsed_content_def without_file_def warning_for_def file_field_def key_name_def

theorem getConfig_first_match_wins_witness:
  "usable (fs world_local (getLocalConfigPath world_local)) \<and>
   fst (getConfig world_local) = parsed_content (fs world_local (getLocalConfigPath world_local)) \<and>
   \<not> usable (fs world_global (getLocalConfigPath world_global)) \<and>
   fs world_global (getLocalConfigPath world_global) \<noteq> None \<and>
   usable (fs world_global (getGlobalConfigPath world_global)) \<and>
   fst (getConfig world_global) =
     parsed_content (fs world_global (getGlobalConfigPath world_global)) \<and>
   fst (getConfig world_global) =
     fst (getConfig (without_file world_global (getLocalConfigPath world_global))) \<and>
   warning_for (getLocalConfigPath world_global) \<in> set (snd (getConfig world_global)) \<and>
   \<not> usable (fs world_env (getLocalConfigPath world_env)) \<and>
   \<not> usable (fs world_env (getGlobalConfigPath world_env)) \<and>
   fs world_env (getGlobalConfigPath world_env) \<noteq> None \<and>
   fst (getConfig world_env) = getConfigFromEnv world_env \<and>
   fst (getConfig world_env) =
     fst (getConfig (without_file world_env (getGlobalConfigPath world_env))) \<and>
   warning_for (getGlobalConfigPath world_env) \<in> set (snd (getConfig world_env))"
proof -
  have l: "usable (fs world_local (getLocalConfigPath world_local))"
    by (simp add: world_local_def example_world_defs)
  have g: "\<not> usable (fs world_global (getLocalConfigPath world_global))"
    "fs world_global (getLocalConfigPath world_global) \<noteq> None"
    "usable (fs world_global (getGlobalConfigPath world_global))"
    by (simp_all add: world_global_def example_world_defs)
  have e: "\<not> usable (fs world_env (getLocalConfigPath world_env))"
    "\<not> usable (fs world_env (getGlobalConfigPath world_env))"
    "fs world_env (getGlobalConfigPath world_env) \<noteq> None"
    by (simp_all add: world_env_def example_world_defs)
  from getConfig_first_match_wins [of world_local] l
  have 1: "fst (getConfig world_local) =
      parsed_content (fs world_local (getLocalConfigPath world_local))"
    by blast
  from getConfig_first_match_wins [of world_global] g
  have 2: "fst (getConfig world_global) =
       parsed_content (fs world_global (getGlobalConfigPath world_global))"
    "fst (getConfig world_global) =
       fst (getConfig (without_file world_global (getLocalConfigPath world_global)))"
    "warning_for (getLocalConfigPath world_global) \<in> set (snd (getConfig world_global))"
    by blast+
  from getConfig_first_match_wins [of world_env] e
  have 3: "fst (getConfig world_env) = getConfigFromEnv world_env"
    "fst (getConfig world_env) =
       fst (getConfig (without_file world_env (getGlobalConfigPath world_env)))"
    "warning_for (getGlobalConfigPath world_env) \<in> set (snd (getConfig world_env))"
    by blast+
  from l g e 1 2 3 show ?thesis by blast
qed

section \<open>The effective issue-tracker flag\<close>

lemma env_entry_other_key:
  "configKey \<noteq> k \<Longrightarrow> env_entry w config (envKey, configKey) k = config k"
  by (auto simp: env_entry_def split: option.splits)

lemma getConfigFromEnv_linearEnabled:
  "getConfigFromEnv w linearEnabled =
     (case env w ''LINEAR_ENABLED'' of
        None \<Rightarrow> None
      | Some v \<Rightarrow> if v = [] then None else Some (VBool (toLowerCase v = ''true'' \<or> v = ''1'')))"
proof -
  have "getConfigFromEnv w linearEnabled =
        env_entry w Map.empty (''LINEAR_ENABLED'', linearEnabled) linearEnabled"
    by (simp add: getConfigFromEnv_def ENV_TO_CONFIG_def env_entry_def split: option.splits)
  then show ?thesis by (simp add: env_entry_def split: option.splits)
qed

lemma parsed_content_linearEnabled:
  assumes "usable f"
  shows "parsed_content f linearEnabled =
           Some (VBool (file_field f linearEnabled \<noteq> Some (JBool False)))"
proof -
  from assms obtain kvs c where f: "f = Some (Json (JObj kvs))" and
    c: "configSchema_parse (JObj kvs) = Some c"
    by (auto simp: usable_def configSchema_parse_def split: option.splits file_text.splits json.splits)
  from c obtain e where e: "boolean_optional_default_true (map_of kvs ''linearEnabled'') = Some e"
    and ce: "c linearEnabled = e"
    by (auto simp: configSchema_parse_def split: option.splits)
  from e have "e = Some (VBool (map_of kvs ''linearEnabled'' \<noteq> Some (JBool False)))"
    by (auto simp: boolean_optional_default_true_def split: option.splits json.splits)
  with f c ce show ?thesis
    by (simp add: parsed_content_def file_field_def key_name_def)
qed

text \<open>
  Claim C8, as stated, fails: resolution stops at the first usable source, and a file
  without the field parses to the default \<open>true\<close>. With a global file that holds only a
  key and \<open>LINEAR_ENABLED=false\<close> in the environment, the flag is enabled.
\<close>

theorem linearEnabled_env_false_ignored:
  "env world_env_false ''LINEAR_ENABLED'' = Some ''false'' \<and> isLinearEnabled world_env_false"
  by (simp add: isLinearEnabled_def getConfig_def readConfigFile_def world_env_false_def
      example_world_defs)

text \<open>
  Claim C8, amended. The flag is decided by the one source that resolution takes. It is
  disabled exactly when that source says false: the field \<open>linearEnabled\<close> of the file
  taken is \<open>false\<close>, or, when no file is usable, \<open>LINEAR_ENABLED\<close> is set to a non-empty
  value other than \<open>true\<close> (in any case) or \<open>1\<close>. In every other case it is enabled.
\<close>

theorem isLinearEnabled_resolved_source:
  "(usable (fs w (getLocalConfigPath w)) \<longrightarrow>
      isLinearEnabled w = (file_field (fs w (getLocalConfigPath w)) linearEnabled \<noteq> Some (JBool False))) \<and>
   (\<not> usable (fs w (getLocalConfigPath w)) \<and> usable (fs w (getGlobalConfigPath w)) \<longrightarrow>
      isLinearEnabled w = (file_field (fs w (getGlobalConfigPath w)) linearEnabled \<noteq> Some (JBool False))) \<and>
   (\<not> usable (fs w (getLocalConfigPath w)) \<and> \<not> usable (fs w (getGlobalConfigPath w)) \<longrightarrow>
      isLinearEnabled w =
        (case env w ''LINEAR_ENABLED'' of
           None \<Rightarrow> True
         | Some v \<Rightarrow> v = [] \<or> toLowerCase v = ''true'' \<or> v = ''1''))"
proof (intro conjI impI)
  show "isLinearEnabled w = (file_field (fs w (getLocalConfigPath w)) linearEnabled \<noteq> Some (JBool False))"
    if "usable (fs w (getLocalConfigPath w))"
    using that by (simp add: isLinearEnabled_def getConfig_local parsed_content_linearEnabled)
  show "isLinearEnabled w = (file_field (fs w (getGlobalConfigPath w)) linearEnabled \<noteq> Some (JBool False))"
    if "\<not> usable (fs w (getLocalConfigPath w)) \<and> usable (fs w (getGlobalConfigPath w))"
    using that by (simp add: isLinearEnabled_def getConfig_global parsed_content_linearEnabled)
  show "isLinearEnabled w =
        (case env w ''LINEAR_ENABLED'' of
           None \<Rightarrow> True
         | Some v \<Rightarrow> v = [] \<or> toLowerCase v = ''true'' \<or> v = ''1'')"
    if "\<not> usable (fs w (getLocalConfigPath w)) \<and> \<not> usable (fs w (getGlobalConfigPath w))"
    using that
    by (simp add: isLinearEnabled_def getConfig_env getConfigFromEnv_linearEnabled
        split: option.splits)
qed

theorem isLinearEnabled_resolved_source_witness:
  "usable (fs world_file_false (getLocalConfigPath world_file_false)) \<and>
   \<not> isLinearEnabled world_file_false \<and>
   \<not> usable (fs world_env_false (getLocalConfigPath world_env_false)) \<and>
   usable (fs world_env_false (getGlobalConfigPath world_env_false)) \<and>
   isLinearEnabled world_env_false \<and>
   \<not> usable (fs world_only_env_false (getLocalConfigPath world_only_env_false)) \<and>
   \<not> usable (fs world_only_env_false (getGlobalConfigPath world_only_env_false)) \<and>
   \<not> isLinearEnabled world_only_env_false"
proof -
  have a: "usable (fs world_file_false (getLocalConfigPath world_file_false))"
    "file_field (fs world_file_false (getLocalConfigPath world_file_false)) linearEnabled =
       Some (JBool False)"
    by (simp_all add: world_file_false_def example_world_defs)
  have b: "\<not> usable (fs world_env_false (getLocalConfigPath world_env_false))"
    "usable (fs world_env_false (getGlobalConfigPath world_env_false))"
    "file_field (fs world_env_false (getGlobalConfigPath world_env_false)) linearEnabled = None"
    by (simp_all add: world_env_false_def example_world_defs)
  have c: "\<not> usable (fs world_only_env_false (getLocalConfigPath world_only_env_false))"
    "\<not> usable (fs world_only_env_false (getGlobalConfigPath world_only_env_false))"
    "env world_only_env_false ''LINEAR_ENABLED'' = Some ''false''"
    by (simp_all add: world_only_env_false_def example_world_defs)
  from isLinearEnabled_resolved_source [of world_file_false] a
  have 1: "\<not> isLinearEnabled world_file_false" by simp
  from isLinearEnabled_resolved_source [of world_env_false] b
  have 2: "isLinearEnabled world_env_false" by simp
  from isLinearEnabled_resolved_source [of world_only_env_false] c
  have 3: "\<not> isLinearEnabled world_only_env_false" by (simp add: char_class_defs)
  from a(1) b(1,2) c(1,2) 1 2 3 show ?thesis by blast
qed

section \<open>Writing the configuration\<close>

lemma file_field_stringify:
  "file_field (Some (Json (stringify c))) k = map_option value_json (c k)"
  by (cases k)
     (simp_all add: file_field_def stringify_def CONFIG_KEYS_def key_name_def
        split: option.splits)

lemma string_optional_present:
  "string_optional x = Some y \<Longrightarrow> x \<noteq> None \<Longrightarrow> map_option value_json y = x"
  by (auto simp: string_optional_def value_json_def split: option.splits json.splits)

lemma boolean_optional_present:
  "boolean_optional_default_true x = Some y \<Longrightarrow> x \<noteq> None \<Longrightarrow> map_option value_json y = x"
  by (auto simp: boolean_optional_default_true_def value_json_def split: option.splits json.splits)

lemma parsed_content_field:
  assumes "usable f" "file_field f k \<noteq> None"
  shows "map_option value_json (parsed_content f k) = file_field f k"
proof -
  from assms(1) obtain kvs c where f: "f = Some (Json (JObj kvs))" and
    c: "configSchema_parse (JObj kvs) = Some c"
    by (auto simp: usable_def configSchema_parse_def split: option.splits file_text.splits json.splits)
  from c obtain g t l e where
    p: "string_optional (map_of kvs ''googleAiKey'') = Some g"
       "string_optional (map_of kvs ''githubToken'') = Some t"
       "string_optional (map_of kvs ''linearApiKey'') = Some l"
       "boolean_optional_default_true (map_of kvs ''linearEnabled'') = Some e" and
    ck: "c googleAiKey = g" "c githubToken = t" "c linearApiKey = l" "c linearEnabled = e"
    by (auto simp: configSchema_parse_def split: option.splits)
  have pc: "parsed_content f = c" using f c by (simp add: parsed_content_def)
  from assms(2) f have present: "map_of kvs (key_name k) \<noteq> None"
    by (simp add: file_field_def)
  show ?thesis
  proof (cases k)
    case googleAiKey
    with present p(1) ck(1) pc f show ?thesis
      by (simp add: file_field_def key_name_def string_optional_present)
  next
    case githubToken
    with present p(2) ck(2) pc f show ?thesis
      by (simp add: file_field_def key_name_def string_optional_present)
  next
    case linearApiKey
    with present p(3) ck(3) pc f show ?thesis
      by (simp add: file_field_def key_name_def string_optional_present)
  next
    case linearEnabled
    with present p(4) ck(4) pc f show ?thesis
      by (simp add: file_field_def key_name_def boolean_optional_present)
  qed
qed

lemma existing_config:
  "(case fst (readConfigFile w p) of Some c \<Rightarrow> c | None \<Rightarrow> Map.empty) =
     (if usable (fs w p) then parsed_content (fs w p) else Map.empty)"
  by (simp add: readConfigFile_usable readConfigFile_unusable)

lemma writeConfigFile_Inr:
  "writeConfigFile w p c = Inr w' \<Longrightarrow> fs w' = (fs w)(p \<mapsto> Json (stringify c))"
  by (auto simp: writeConfigFile_def split: if_splits)

lemma setConfigValue_succeeds:
  "\<not> write_fails w \<Longrightarrow> \<exists>w'. setConfigValue w key v = Inr w'"
  by (simp add: setConfigValue_def writeConfigFile_def Let_def)

lemma setConfigValues_succeeds:
  "\<not> write_fails w \<Longrightarrow> \<exists>w'. setConfigValues w values = Inr w'"
  by (simp add: setConfigValues_def writeConfigFile_def Let_def)

text \<open>
  Claim C9, as stated, fails for a global file that does not pass the schema: it is read
  as \<open>null\<close>, the update starts from the empty object, and the fields of the file are
  lost. Here the file holds \<open>googleAiKey\<close> and the string \<open>false\<close> under
  \<open>linearEnabled\<close>; after \<open>setConfigValue("githubToken", "t")\<close> the key is gone.
\<close>

theorem setConfigValue_drops_fields:
  "file_field (fs world_string_flag (getGlobalConfigPath world_string_flag)) googleAiKey
     = Some (JStr ''k'') \<and>
   field_after (setConfigValue world_string_flag githubToken (VStr ''t''))
     (getGlobalConfigPath world_string_flag) googleAiKey = Inr None"
  by (simp add: field_after_def setConfigValue_def writeConfigFile_def readConfigFile_def stringify_def
      CONFIG_KEYS_def world_string_flag_def example_world_defs)

text \<open>
  Claim C9, amended. \<open>setConfigValue\<close> and \<open>setConfigValues\<close> change no file but the
  global one; in particular the project-local file stays as it is. The written file holds
  the given value under every key named. When the existing global file passes the schema,
  every configuration key present in it and not named keeps its value; when the file is
  absent or does not pass the schema, the written file holds nothing under the keys not
  named.
\<close>

theorem setConfig_read_merge_write:
  "(setConfigValue w key v = Inr w' \<longrightarrow>
      (\<forall>p. p \<noteq> getGlobalConfigPath w \<longrightarrow> fs w' p = fs w p) \<and>
      fs w' (getLocalConfigPath w) = fs w (getLocalConfigPath w) \<and>
      file_field (fs w' (getGlobalConfigPath w)) key = Some (value_json v) \<and>
      (\<forall>k. k \<noteq> key \<longrightarrow>
         (usable (fs w (getGlobalConfigPath w)) \<and> file_field (fs w (getGlobalConfigPath w)) k \<noteq> None \<longrightarrow>
            file_field (fs w' (getGlobalConfigPath w)) k = file_field (fs w (getGlobalConfigPath w)) k) \<and>
         (\<not> usable (fs w (getGlobalConfigPath w)) \<longrightarrow>
            file_field (fs w' (getGlobalConfigPath w)) k = None))) \<and>
   (setConfigValues w values = Inr w'' \<longrightarrow>
      (\<forall>p. p \<noteq> getGlobalConfigPath w \<longrightarrow> fs w'' p = fs w p) \<and>
      fs w'' (getLocalConfigPath w) = fs w (getLocalConfigPath w) \<and>
      (\<forall>k. (\<forall>x. values k = Some x \<longrightarrow>
               file_field (fs w'' (getGlobalConfigPath w)) k = map_option value_json x) \<and>
           (values k = None \<and> usable (fs w (getGlobalConfigPath w)) \<and>
            file_field (fs w (getGlobalConfigPath w)) k \<noteq> None \<longrightarrow>
              file_field (fs w'' (getGlobalConfigPath w)) k = file_field (fs w (getGlobalConfigPath w)) k) \<and>
           (values k = None \<and> \<not> usable (fs w (getGlobalConfigPath w)) \<longrightarrow>
              file_field (fs w'' (getGlobalConfigPath w)) k = None)))"
proof (intro conjI impI)
  let ?G = "getGlobalConfigPath w"
  let ?old = "if usable (fs w ?G) then parsed_content (fs w ?G) else Map.empty"
  {
    assume "setConfigValue w key v = Inr w'"
    then have w': "fs w' = (fs w)(?G \<mapsto> Json (stringify (?old(key \<mapsto> v))))"
      unfolding setConfigValue_def Let_def existing_config by (rule writeConfigFile_Inr)
    show "\<forall>p. p \<noteq> ?G \<longrightarrow> fs w' p = fs w p" using w' by simp
    show "fs w' (getLocalConfigPath w) = fs w (getLocalConfigPath w)"
      using w' config_paths_differ [of w w] by simp
    show "file_field (fs w' ?G) key = Some (value_json v)"
      using w' by (simp add: file_field_stringify)
    show "\<forall>k. k \<noteq> key \<longrightarrow>
         (usable (fs w ?G) \<and> file_field (fs w ?G) k \<noteq> None \<longrightarrow>
            file_field (fs w' ?G) k = file_field (fs w ?G) k) \<and>
         (\<not> usable (fs w ?G) \<longrightarrow> file_field (fs w' ?G) k = None)"
      using w' by (simp add: file_field_stringify parsed_content_field)
  }
  {
    assume "setConfigValues w values = Inr w''"
    then have w'': "fs w'' = (fs w)(?G \<mapsto> Json (stringify (spread ?old values)))"
      unfolding setConfigValues_def Let_def existing_config by (rule writeConfigFile_Inr)
    show "\<forall>p. p \<noteq> ?G \<longrightarrow> fs w'' p = fs w p" using w'' by simp
    show "fs w'' (getLocalConfigPath w) = fs w (getLocalConfigPath w)"
      using w'' config_paths_differ [of w w] by simp
    show "\<forall>k. (\<forall>x. values k = Some x \<longrightarrow>
               file_field (fs w'' ?G) k = map_option value_json x) \<and>
           (values k = None \<and> usable (fs w ?G) \<and> file_field (fs w ?G) k \<noteq> None \<longrightarrow>
              file_field (fs w'' ?G) k = file_field (fs w ?G) k) \<and>
           (values k = None \<and> \<not> usable (fs w ?G) \<longrightarrow> file_field (fs w'' ?G) k = None)"
      using w'' by (simp add: file_field_stringify parsed_content_field spread_def)
  }
qed

theorem setConfig_read_merge_write_witness:
  "usable (fs world_two_keys (getGlobalConfigPath world_two_keys)) \<and>
   file_field (fs world_two_keys (getGlobalConfigPath world_two_keys)) linearApiKey = Some (JStr ''l'') \<and>
   (\<exists>w'. setConfigValue world_two_keys googleAiKey (VStr ''new'') = Inr w' \<and>
      fs w' (getLocalConfigPath world_two_keys) = fs world_two_keys (getLocalConfigPath world_two_keys) \<and>
      file_field (fs w' (getGlobalConfigPath world_two_keys)) googleAiKey = Some (JStr ''new'') \<and>
      file_field (fs w' (getGlobalConfigPath world_two_keys)) linearApiKey = Some (JStr ''l'')) \<and>
   (\<exists>w''. setConfigValues world_two_keys [githubToken \<mapsto> Some (VStr ''t'')] = Inr w'' \<and>
      fs w'' (getLocalConfigPath world_two_keys) = fs world_two_keys (getLocalConfigPath world_two_keys) \<and>
      file_field (fs w'' (getGlobalConfigPath world_two_keys)) githubToken = Some (JStr ''t'') \<and>
      file_field (fs w'' (getGlobalConfigPath world_two_keys)) linearApiKey = Some (JStr ''l'')) \<and>
   \<not> usable (fs world_string_flag (getGlobalConfigPath world_string_flag)) \<and>
   (\<exists>w'. setConfigValue world_string_flag githubToken (VStr ''t'') = Inr w' \<and>
      file_field (fs w' (getGlobalConfigPath world_string_flag)) googleAiKey = None)"
proof -
  have u: "usable (fs world_two_keys (getGlobalConfigPath world_two_keys))"
    "file_field (fs world_two_keys (getGlobalConfigPath world_two_keys)) linearApiKey = Some (JStr ''l'')"
    by (simp_all add: world_two_keys_def example_world_defs)
  have ok: "\<not> write_fails world_two_keys" "\<not> write_fails world_string_flag"
    by (simp_all add: world_two_keys_def world_string_flag_def example_world_def)
  obtain w' where 1: "setConfigValue world_two_keys googleAiKey (VStr ''new'') = Inr w'"
    using setConfigValue_succeeds [OF ok(1)] by blast
  obtain w'' where 2: "setConfigValues world_two_keys [githubToken \<mapsto> Some (VStr ''t'')] = Inr w''"
    using setConfigValues_succeeds [OF ok(1)] by blast
  have n: "\<not> usable (fs world_string_flag (getGlobalConfigPath world_string_flag))"
    by (simp add: world_string_flag_def example_world_defs)
  obtain w3 where 3: "setConfigValue world_string_flag githubToken (VStr ''t'') = Inr w3"
    using setConfigValue_succeeds [OF ok(2)] by blast
  from setConfig_read_merge_write [of world_two_keys googleAiKey "VStr ''new''" w'
      "[githubToken \<mapsto> Some (VStr ''t'')]" w''] 1 2 u
  have a: "fs w' (getLocalConfigPath world_two_keys) = fs world_two_keys (getLocalConfigPath world_two_keys)"
    "file_field (fs w' (getGlobalConfigPath world_two_keys)) googleAiKey = Some (JStr ''new'')"
    "file_field (fs w' (getGlobalConfigPath world_two_keys)) linearApiKey = Some (JStr ''l'')"
    "fs w'' (getLocalConfigPath world_two_keys) = fs world_two_keys (getLocalConfigPath world_two_keys)"
    "file_field (fs w'' (getGlobalConfigPath world_two_keys)) githubToken = Some (JStr ''t'')"
    "file_field (fs w'' (getGlobalConfigPath world_two_keys)) linearApiKey = Some (JStr ''l'')"
    by (simp_all add: value_json_def)
  from setConfig_read_merge_write [of world_string_flag githubToken "VStr ''t''" w3 Map.empty w3] 3 n
  have b: "file_field (fs w3 (getGlobalConfigPath world_string_flag)) googleAiKey = None"
    by simp
  from u 1 2 n 3 a b show ?thesis by blast
qed

section \<open>AI content generation\<close>

lemma commit_message_schema_valid:
  "commit_message_schema j = Inr c \<Longrightarrow> valid_commit_message c"
  by (auto simp: commit_message_schema_def valid_commit_message_def
      split: json.splits option.splits if_splits)

lemma pr_content_schema_valid:
  "pr_content_schema j = Inr p \<Longrightarrow> valid_pr_content p"
  by (auto simp: pr_content_schema_def valid_pr_content_def
      split: json.splits option.splits if_splits)

lemma generate_guarded_parsed:
  "generate_guarded w schema = Some x \<Longrightarrow> \<exists>j. schema j = Inr x"
  by (auto simp: generate_guarded_def streaming_attempt_def OutputSchema_parse_def
      split: sum.splits option.splits prod.splits)

text \<open>
  Once the shell commands at the head of a generator have succeeded, the generator
  returns \<open>null\<close> or a value that satisfies its schema.
\<close>

lemma generateCommitMessage_after_context:
  assumes "execSync w ''git diff --cached --stat'' = Inr s1"
    and "execSync w ''git diff --cached'' = Inr s2"
  shows "generateCommitMessage w d = Inr None \<or>
         (\<exists>c. generateCommitMessage w d = Inr (Some c) \<and> valid_commit_message c)"
proof (cases "generate_guarded w commit_message_schema")
  case None
  with assms show ?thesis by (simp add: generateCommitMessage_def)
next
  case (Some c)
  from generate_guarded_parsed [OF this] obtain j where "commit_message_schema j = Inr c"
    by blast
  then have "valid_commit_message c" by (rule commit_message_schema_valid)
  with Some assms show ?thesis by (simp add: generateCommitMessage_def)
qed

lemma generatePRContent_after_context:
  assumes "execSync w (''git diff origin/'' @ base @ ''..HEAD --stat'') = Inr s1"
    and "execSync w (''git diff origin/'' @ base @ ''..HEAD'') = Inr s2"
    and "execSync w (''git log origin/'' @ base @ ''..HEAD --pretty=format:\"- %s\"'') = Inr s3"
    and "execSync w (''git rev-list --count origin/'' @ base @ ''..HEAD'') = Inr s4"
  shows "generatePRContent w cur base d = Inr None \<or>
         (\<exists>p. generatePRContent w cur base d = Inr (Some p) \<and> valid_pr_content p)"
proof (cases "generate_guarded w pr_content_schema")
  case None
  with assms show ?thesis by (simp add: generatePRContent_def)
next
  case (Some p)
  from generate_guarded_parsed [OF this] obtain j where "pr_content_schema j = Inr p"
    by blast
  then have "valid_pr_content p" by (rule pr_content_schema_valid)
  with Some assms show ?thesis by (simp add: generatePRContent_def)
qed

lemma generateCommitMessage_example:
  "generateCommitMessage world_ai_answers None =
     Inr (Some \<lparr>cm_type = ''fix'', cm_scope = None, cm_description = ''repair login''\<rparr>)"
  by (simp add: generateCommitMessage_def generate_guarded_def streaming_attempt_def
      OutputSchema_parse_def accumulate_def chunk_text_def part_text_def
      commit_message_schema_def string_optional_def commit_type_def world_ai_answers_def)

text \<open>
  Claim C2 on the code: the \<open>execSync\<close> calls that gather the context stand before the
  \<open>try\<close> block. When such a command fails, the exception leaves the generator instead of
  turning into \<open>null\<close>.
\<close>

theorem generators_throw_when_git_fails:
  "generateCommitMessage world_git_fails None =
     Inl ''Error: Command failed: git diff --cached --stat'' \<and>
   generatePRContent world_git_fails ''feature/login'' ''develop'' None =
     Inl ''Error: Command failed: git diff origin/develop..HEAD --stat''"
  by (simp add: generateCommitMessage_def generatePRContent_def world_git_fails_def)

section \<open>The commit workflow\<close>

lemma commands_append [simp]: "commands (xs @ ys) = commands xs @ commands ys"
  by (induction xs rule: commands.induct) auto

lemma commands_iff: "c \<in> set (commands tr) \<longleftrightarrow> Exec c \<in> set tr"
  by (induction tr rule: commands.induct) auto

lemma commands_force_push_blocked [simp]: "commands (force_push_blocked branch) = []"
  by (simp add: force_push_blocked_def)

lemma commands_pull_then_push:
  "set (commands (pull_then_push w tr starting pull_cmd pulled push_cmd failed))
     \<subseteq> set (commands tr) \<union> {pull_cmd, push_cmd}"
  by (auto simp: pull_then_push_def exec_def split: sum.splits)

text \<open>
  The commands that the guarded handler can add to a trace: a pull, a pull with rebase,
  a push, and the force push only on a branch that is not protected.
\<close>

lemma commands_push_failed:
  "set (commands (fst (push_failed w tr branch error_str)))
     \<subseteq> set (commands tr) \<union>
       {''git pull origin '' @ branch, ''git pull --rebase origin '' @ branch,
        ''git push origin '' @ branch} \<union>
       (if isProtectedBranch branch then {} else {''git push --force origin '' @ branch})"
proof -
  note p = commands_pull_then_push [of w _ _ _ _ "''git push origin '' @ branch"]
  show ?thesis
    unfolding push_failed_def Let_def ask_select_def ask_confirm_def force_push_def exec_def
    using p [of "tr @ [Error ''Failed to push changes'', Prompt diverged_question]"
              "''Pulling remote changes...''" "''git pull origin '' @ branch"
              "''Merged remote changes''"
              "''Failed to pull and push. You may need to resolve conflicts.''"]
          p [of "tr @ [Error ''Failed to push changes'', Prompt diverged_question]"
              "''Rebasing on remote changes...''" "''git pull --rebase origin '' @ branch"
              "''Rebased on remote changes''"
              "''Failed to rebase. You may need to resolve conflicts.''"]
    by (auto split: sum.splits)
qed

text \<open>
  The commands of the body of \<open>processCommit\<close>: either the run ends in the handler of
  a failed push, entered after \<open>git add .\<close>, the commit, the query for the branch and
  the push; or it executes at most those four commands.
\<close>

lemma processCommit_try_cases:
  "(\<exists>t branch e. processCommit_try h w tr message = h w t branch e \<and>
       set (commands t) \<subseteq> set (commands tr) \<union>
         {''git add .'', ''git commit -m \"'' @ message @ ''\"'', ''git branch --show-current'',
          ''git push origin '' @ branch}) \<or>
   (\<exists>branch. set (commands (fst (processCommit_try h w tr message))) \<subseteq> set (commands tr) \<union>
         {''git add .'', ''git commit -m \"'' @ message @ ''\"'', ''git branch --show-current'',
          ''git push origin '' @ branch})"
proof -
  let ?t0 = "tr @ [Start ''Committing changes...'']"
  let ?t1 = "?t0 @ [Exec ''git add .'']"
  let ?t2 = "?t1 @ [Exec (''git commit -m \"'' @ message @ ''\"'')]"
  let ?t3 = "?t2 @ [Success ''Changes committed successfully!'', Exec ''git branch --show-current'']"
  show ?thesis
  proof (cases "run w ?t0 ''git add .''")
    case (Inl e)
    then have
      "set (commands (fst (processCommit_try h w tr message))) \<subseteq> set (commands tr) \<union>
         {''git add .'', ''git commit -m \"'' @ message @ ''\"'', ''git branch --show-current'',
          ''git push origin '' @ []}"
      by (auto simp: processCommit_try_def exec_def ask_confirm_def Let_def)
    then show ?thesis by blast
  next
    case add: (Inr out1)
    show ?thesis
    proof (cases "run w ?t1 (''git commit -m \"'' @ message @ ''\"'')")
      case (Inl e)
      with add have
      "set (commands (fst (processCommit_try h w tr message))) \<subseteq> set (commands tr) \<union>
         {''git add .'', ''git commit -m \"'' @ message @ ''\"'', ''git branch --show-current'',
          ''git push origin '' @ []}"
      by (auto simp: processCommit_try_def exec_def ask_confirm_def Let_def)
    then show ?thesis by blast
    next
      case commit: (Inr out2)
      show ?thesis
      proof (cases "run w (?t2 @ [Success ''Changes committed successfully!'']) ''git branch --show-current''")
        case (Inl e)
        with add commit have
      "set (commands (fst (processCommit_try h w tr message))) \<subseteq> set (commands tr) \<union>
         {''git add .'', ''git commit -m \"'' @ message @ ''\"'', ''git branch --show-current'',
          ''git push origin '' @ []}"
      by (auto simp: processCommit_try_def exec_def ask_confirm_def Let_def)
    then show ?thesis by blast
      next
        case current: (Inr out3)
        let ?branch = "trim out3"
        let ?t4 = "?t3 @ [Info (''Current branch: '' @ ?branch), Prompt ''Push to origin?'']"
        let ?t5 = "?t4 @ [Start (''Pushing to origin/'' @ ?branch @ ''...''),
                          Exec (''git push origin '' @ ?branch)]"
        show ?thesis
        proof (cases "confirm w (?t3 @ [Info (''Current branch: '' @ ?branch)]) ''Push to origin?''")
          case False
          with add commit current have
      "set (commands (fst (processCommit_try h w tr message))) \<subseteq> set (commands tr) \<union>
         {''git add .'', ''git commit -m \"'' @ message @ ''\"'', ''git branch --show-current'',
          ''git push origin '' @ []}"
      by (auto simp: processCommit_try_def exec_def ask_confirm_def Let_def)
    then show ?thesis by blast
        next
          case True
          show ?thesis
          proof (cases "run w (?t4 @ [Start (''Pushing to origin/'' @ ?branch @ ''...'')])
                          (''git push origin '' @ ?branch)")
            case (Inr out5)
            with add commit current True have
              "set (commands (fst (processCommit_try h w tr message))) \<subseteq> set (commands tr) \<union>
                 {''git add .'', ''git commit -m \"'' @ message @ ''\"'', ''git branch --show-current'',
                  ''git push origin '' @ ?branch}"
              by (auto simp: processCommit_try_def exec_def ask_confirm_def Let_def)
            then show ?thesis by blast
          next
            case (Inl error_str)
            with add commit current True have
              "processCommit_try h w tr message = h w ?t5 ?branch error_str"
              by (simp add: processCommit_try_def exec_def ask_confirm_def Let_def)
            moreover have "set (commands ?t5) \<subseteq> set (commands tr) \<union>
                 {''git add .'', ''git commit -m \"'' @ message @ ''\"'', ''git branch --show-current'',
                  ''git push origin '' @ ?branch}"
              by auto
            ultimately show ?thesis by blast
          qed
        qed
      qed
    qed
  qed
qed

lemma commands_processCommit:
  assumes "c \<in> set (commands (fst (processCommit w tr message)))"
  shows "c \<in> set (commands tr) \<or> c = ''git add .'' \<or>
         c = ''git commit -m \"'' @ message @ ''\"'' \<or> c = ''git branch --show-current'' \<or>
         (\<exists>branch. c = ''git pull origin '' @ branch \<or> c = ''git pull --rebase origin '' @ branch \<or>
            c = ''git push origin '' @ branch \<or>
            (c = ''git push --force origin '' @ branch \<and> \<not> isProtectedBranch branch))"
proof -
  from processCommit_try_cases [of push_failed w tr message]
  consider (handler) t branch e where
      "processCommit w tr message = push_failed w t branch e"
      "set (commands t) \<subseteq> set (commands tr) \<union>
         {''git add .'', ''git commit -m \"'' @ message @ ''\"'', ''git branch --show-current'',
          ''git push origin '' @ branch}"
    | (plain) branch where
      "set (commands (fst (processCommit w tr message))) \<subseteq> set (commands tr) \<union>
         {''git add .'', ''git commit -m \"'' @ message @ ''\"'', ''git branch --show-current'',
          ''git push origin '' @ branch}"
    unfolding processCommit_def by blast
  then show ?thesis
  proof cases
    case handler
    from assms handler(1) have "c \<in> set (commands (fst (push_failed w t branch e)))" by simp
    with commands_push_failed [of w t branch e]
    have "c \<in> set (commands t) \<or> c = ''git pull origin '' @ branch \<or>
          c = ''git pull --rebase origin '' @ branch \<or> c = ''git push origin '' @ branch \<or>
          (c = ''git push --force origin '' @ branch \<and> \<not> isProtectedBranch branch)"
      by (auto split: if_splits)
    with handler(2) show ?thesis by blast
  next
    case plain
    with assms show ?thesis by blast
  qed
qed

text \<open>
  In the snapshot with the guard, no run of \<open>processCommit\<close> executes the force push of
  a protected branch, whatever the world answers; and when the push was rejected on a
  protected branch and the user picks \<open>force\<close>, the refusal is reported and the function
  returns.
\<close>

lemma processCommit_never_forces_protected:
  assumes "isProtectedBranch b"
    and "Exec (''git push --force origin '' @ b) \<notin> set tr"
  shows "Exec (''git push --force origin '' @ b) \<notin> set (fst (processCommit w tr message))"
proof
  assume "Exec (''git push --force origin '' @ b) \<in> set (fst (processCommit w tr message))"
  then have "''git push --force origin '' @ b \<in> set (commands (fst (processCommit w tr message)))"
    by (simp add: commands_iff)
  from commands_processCommit [OF this] assms show False
    by (auto simp: commands_iff)
qed

lemma push_failed_blocked_reported:
  assumes "isProtectedBranch branch" "diverged error_str"
    and "select w (tr @ [Error ''Failed to push changes'']) diverged_question = ''force''"
  shows "push_failed w tr branch error_str =
           (tr @ [Error ''Failed to push changes'', Prompt diverged_question] @
              force_push_blocked branch @
              [Info ''Please use pull/rebase instead, or switch to a feature branch.''], Done)"
  using assms by (simp add: push_failed_def ask_select_def)

lemmas commit_defs =
  processCommit_def processCommit_unguarded_def processCommit_try_def push_failed_def
  push_failed_unguarded_def force_push_def pull_then_push_def exec_def ask_confirm_def
  ask_select_def diverged_def diverged_question_def isProtectedBranch_def PROTECTED_BRANCHES_def
  trim_def is_space_def

lemma processCommit_rejected_main:
  "Exec ''git push --force origin main'' \<notin> set (fst (processCommit world_rejected_main [] ''fix: x'')) \<and>
   set (force_push_blocked ''main'') \<subseteq> set (fst (processCommit world_rejected_main [] ''fix: x'')) \<and>
   snd (processCommit world_rejected_main [] ''fix: x'') = Done"
  by (simp add: commit_defs world_rejected_main_def force_push_blocked_def Let_def)

text \<open>
  Claim C1 on the code. In \<open>src/workflows/commit-workflow.ts\<close> the force push has no
  guard: on the protected branch \<open>main\<close>, after a rejected push and the choice
  \<open>force\<close>, the command \<open>git push --force origin main\<close> is executed and nothing is
  reported.
\<close>

theorem processCommit_unguarded_forces_main:
  "isProtectedBranch ''main'' \<and>
   fst (processCommit_unguarded world_rejected_main [] ''fix: x'') =
     [Start ''Committing changes...'', Exec ''git add .'', Exec ''git commit -m \"fix: x\"'',
      Success ''Changes committed successfully!'', Exec ''git branch --show-current'',
      Info ''Current branch: main'', Prompt ''Push to origin?'',
      Start ''Pushing to origin/main...'', Exec ''git push origin main'',
      Error ''Failed to push changes'', Prompt ''Remote has changes. What would you like to do?'',
      Exec ''git push --force origin main'', Success ''Changes force-pushed successfully!'']"
  by (simp add: commit_defs world_rejected_main_def Let_def)

section \<open>Staging at the head of the commit workflow\<close>















section \<open>Release increments\<close>























end
